theory Spec2Isabelle
  imports Complex_Main "HOL-Library.AList"
begin

section \<open>POSIX paths as used by the tracker (os.path)\<close>

text \<open>
  A path string is kept as its list of components: \<open>Abs cs\<close> is the string that starts
  with a slash, \<open>Rel cs\<close> the one that does not; \<open>Rel []\<close> is the empty string and
  \<open>Abs []\<close> the root. The functions below follow posixpath: \<open>join\<close> restarts at an
  absolute second argument, \<open>normpath\<close> of an absolute path drops empty and dot components
  and lets a double dot remove the component before it, \<open>relpath\<close> strips the common
  prefix of the two absolute paths and raises ValueError on the empty path.
\<close>

datatype path = Abs "string list" | Rel "string list"

fun is_abs :: "path \<Rightarrow> bool" where
  "is_abs (Abs cs) = True"
| "is_abs (Rel cs) = False"

fun join :: "path \<Rightarrow> path \<Rightarrow> path" where
  "join a (Abs q) = Abs q"
| "join (Abs p) (Rel q) = Abs (p @ q)"
| "join (Rel p) (Rel q) = Rel (p @ q)"

definition normpath_step :: "string list \<Rightarrow> string \<Rightarrow> string list" where
  "normpath_step new_comps c =
     (if c = [] \<or> c = ''.'' then new_comps
      else if c \<noteq> ''..'' then new_comps @ [c]
      else butlast new_comps)"

definition normpath_abs :: "string list \<Rightarrow> string list" where
  "normpath_abs comps = foldl normpath_step [] comps"

fun abspath :: "string list \<Rightarrow> path \<Rightarrow> string list" where
  "abspath cwd (Abs p) = normpath_abs p"
| "abspath cwd (Rel p) = normpath_abs (cwd @ p)"

fun commonprefix :: "'a list \<Rightarrow> 'a list \<Rightarrow> 'a list" where
  "commonprefix (x # xs) (y # ys) = (if x = y then x # commonprefix xs ys else [])"
| "commonprefix xs ys = []"

definition relpath_lists :: "string list \<Rightarrow> string list \<Rightarrow> path" where
  "relpath_lists path_list start_list =
     (let i = length (commonprefix start_list path_list);
          rel_list = replicate (length start_list - i) ''..'' @ drop i path_list
      in if rel_list = [] then Rel [''.''] else Rel rel_list)"

definition relpath :: "string list \<Rightarrow> path \<Rightarrow> path \<Rightarrow> path option" where
  "relpath cwd p start =
     (if p = Rel [] then None
      else Some (relpath_lists (abspath cwd p) (abspath cwd start)))"

definition basename :: "string list \<Rightarrow> string" where
  "basename cs = (if cs = [] then [] else last cs)"

section \<open>Incremental build tracker (incrementalBuilder.py)\<close>

text \<open>
  A file state is the pair (mtime, hash). The in-memory cache has the dictionary
  \<open>files\<close>, an association list in insertion order with distinct keys, and the set
  \<open>deleted_files\<close>, a list without duplicates in some iteration order. The persisted
  document is either the current format or the legacy one, a bare mapping. A cache file
  that is missing, unparsable or of another shape is \<open>None\<close> on the disk. Every
  entry of a document is a pair of a number and a string, as the tracker writes them;
  mtimes are compared as real numbers.
\<close>

type_synonym file_state = "real \<times> string"

record build_cache =
  files :: "(path \<times> file_state) list"
  deleted_files :: "path list"

datatype cache_doc =
  LegacyDoc "(path \<times> file_state) list"
| CacheDoc "(path \<times> file_state) list" "path list"

type_synonym disk = "path \<Rightarrow> cache_doc option"

record builder =
  repo_path :: "string list"
  work_dir :: "string list"
  cache_dir :: path
  cache_file :: path

text \<open>The environment of one call: the directory walk (absolute roots with their file
  names), what reading a file's mtime and hash gives (\<open>None\<close> when it raises), and
  whether the cache file can be written.\<close>

record env =
  walk :: "(string list \<times> string list) list"
  file_info :: "path \<Rightarrow> file_state option"
  writable :: bool

definition new_builder :: "string list \<Rightarrow> path \<Rightarrow> path \<Rightarrow> builder" where
  "new_builder cwd p cdir =
     (let rp = abspath cwd p
      in \<lparr>repo_path = rp, work_dir = cwd, cache_dir = cdir,
          cache_file = join cdir (Rel [basename rp @ ''_file_state.json''])\<rparr>)"

definition empty_cache :: build_cache where
  "empty_cache = \<lparr>files = [], deleted_files = []\<rparr>"

text \<open>The dictionary comprehension of \<open>_load_cache\<close>: keys are made relative to the
  repository; a later key wins over an equal earlier one; an empty key raises.\<close>

fun load_files :: "builder \<Rightarrow> (path \<times> file_state) list \<Rightarrow> (path \<times> file_state) list
    \<Rightarrow> (path \<times> file_state) list option" where
  "load_files b [] acc = Some acc"
| "load_files b ((k, v) # kvs) acc =
     (case relpath (work_dir b) k (Abs (repo_path b)) of
        None \<Rightarrow> None
      | Some r \<Rightarrow> load_files b kvs (AList.update r v acc))"

definition load_doc :: "builder \<Rightarrow> cache_doc \<Rightarrow> build_cache" where
  "load_doc b doc =
     (case doc of
        CacheDoc fs del \<Rightarrow>
          (case load_files b fs [] of
             None \<Rightarrow> empty_cache
           | Some d \<Rightarrow> \<lparr>files = d, deleted_files = remdups del\<rparr>)
      | LegacyDoc fs \<Rightarrow>
          if Rel [''files''] \<in> fst ` set fs then empty_cache
          else (case load_files b fs [] of
                  None \<Rightarrow> empty_cache
                | Some d \<Rightarrow> \<lparr>files = d, deleted_files = []\<rparr>))"

definition load_cache :: "builder \<Rightarrow> disk \<Rightarrow> build_cache" where
  "load_cache b d = (case d (cache_file b) of None \<Rightarrow> empty_cache | Some doc \<Rightarrow> load_doc b doc)"

fun save_files :: "builder \<Rightarrow> (path \<times> file_state) list \<Rightarrow> (path \<times> file_state) list
    \<Rightarrow> (path \<times> file_state) list" where
  "save_files b [] acc = acc"
| "save_files b ((k, v) # kvs) acc =
     save_files b kvs (AList.update (join (Abs (repo_path b)) k) v acc)"

definition abs_cache :: "builder \<Rightarrow> build_cache \<Rightarrow> cache_doc" where
  "abs_cache b cache = CacheDoc (save_files b (files cache) []) (deleted_files cache)"

definition save_cache :: "builder \<Rightarrow> bool \<Rightarrow> build_cache \<Rightarrow> disk \<Rightarrow> disk" where
  "save_cache b ok cache d = (if ok then d(cache_file b := Some (abs_cache b cache)) else d)"

subsection \<open>Listing the code files\<close>

definition code_extensions :: "string list" where
  "code_extensions = [''.py'', ''.js'', ''.jsx'', ''.ts'', ''.tsx'', ''.java'', ''.kt'',
     ''.kts'', ''.c'', ''.cpp'', ''.h'', ''.hpp'', ''.cs'', ''.go'', ''.rb'', ''.php'',
     ''.rs'', ''.xml'', ''.swift'', ''.objc'', ''.scala'']"

fun is_prefix :: "'a list \<Rightarrow> 'a list \<Rightarrow> bool" where
  "is_prefix [] ys = True"
| "is_prefix (x # xs) [] = False"
| "is_prefix (x # xs) (y # ys) = (x = y \<and> is_prefix xs ys)"

fun contains :: "'a list \<Rightarrow> 'a list \<Rightarrow> bool" where
  "contains needle [] = (needle = [])"
| "contains needle (y # ys) = (is_prefix needle (y # ys) \<or> contains needle ys)"

definition lower_char :: "char \<Rightarrow> char" where
  "lower_char c =
     (let n = (of_char c :: nat) in if 65 \<le> n \<and> n \<le> 90 then char_of (n + 32) else c)"

text \<open>\<open>splitext\<close> of a file name: the extension starts at the last dot, provided a
  character other than a dot stands before it. File names are ASCII, so \<open>lower\<close>
  changes the letters A to Z only. A root is skipped when its path string contains
  \<open>.git\<close> or \<open>node_modules\<close>, which is inside one of its components.\<close>

fun ext_from :: "string \<Rightarrow> bool \<Rightarrow> string \<Rightarrow> string" where
  "ext_from [] seen ext = ext"
| "ext_from (c # cs) seen ext =
     (if c = CHR ''.'' then ext_from cs seen (if seen then c # cs else [])
      else ext_from cs True ext)"

definition splitext_ext :: "string \<Rightarrow> string" where
  "splitext_ext name = ext_from name False []"

definition skipped_root :: "string list \<Rightarrow> bool" where
  "skipped_root rt = (\<exists>c \<in> set rt. contains ''.git'' c \<or> contains ''node_modules'' c)"

definition files_of_root :: "builder \<Rightarrow> string list \<times> string list \<Rightarrow> path list" where
  "files_of_root b rf =
     (if skipped_root (fst rf) then []
      else map (\<lambda>file. relpath_lists (abspath (work_dir b) (join (Abs (fst rf)) (Rel [file])))
                                      (abspath (work_dir b) (Abs (repo_path b))))
               (filter (\<lambda>file. map lower_char (splitext_ext file) \<in> set code_extensions)
                       (snd rf)))"

definition get_all_code_files :: "builder \<Rightarrow> (string list \<times> string list) list \<Rightarrow> path list" where
  "get_all_code_files b w = remdups (concat (map (files_of_root b) w))"

subsection \<open>Classifying the changes\<close>

record changes =
  changed_files :: "path list"
  new_files :: "path list"
  modified_files :: "path list"

definition no_changes :: changes where
  "no_changes = \<lparr>changed_files = [], new_files = [], modified_files = []\<rparr>"

definition scan_file :: "builder \<Rightarrow> (path \<Rightarrow> file_state option) \<Rightarrow> build_cache
    \<Rightarrow> changes \<Rightarrow> path \<Rightarrow> changes" where
  "scan_file b info cache s rel_path =
     (let abs_path = join (Abs (repo_path b)) rel_path in
      case info abs_path of
        None \<Rightarrow> s\<lparr>changed_files := List.insert abs_path (changed_files s)\<rparr>
      | Some (current_mtime, current_hash) \<Rightarrow>
          (case map_of (files cache) rel_path of
             None \<Rightarrow> s\<lparr>changed_files := List.insert abs_path (changed_files s),
                        new_files := new_files s @ [rel_path]\<rparr>
           | Some (cached_mtime, cached_hash) \<Rightarrow>
               if current_mtime > cached_mtime \<or> current_hash \<noteq> cached_hash
               then s\<lparr>changed_files := List.insert abs_path (changed_files s),
                      modified_files := modified_files s @ [rel_path]\<rparr>
               else s))"

definition scan_files :: "builder \<Rightarrow> (path \<Rightarrow> file_state option) \<Rightarrow> build_cache
    \<Rightarrow> path list \<Rightarrow> changes" where
  "scan_files b info cache current_files = foldl (scan_file b info cache) no_changes current_files"

definition newly_deleted :: "build_cache \<Rightarrow> path list \<Rightarrow> path list" where
  "newly_deleted cache current_files =
     filter (\<lambda>rel_path. rel_path \<notin> set current_files \<and> rel_path \<notin> set (deleted_files cache))
            (map fst (files cache))"

definition set_update :: "'a list \<Rightarrow> 'a list \<Rightarrow> 'a list" where
  "set_update s new = s @ filter (\<lambda>x. x \<notin> set s) (remdups new)"

record gcf_result =
  report :: changes
  deleted_report :: "path list"
  saved :: build_cache
  disk_after :: disk

definition get_changed_files :: "builder \<Rightarrow> env \<Rightarrow> disk \<Rightarrow> gcf_result" where
  "get_changed_files b e d =
     (let cache = load_cache b d;
          current_files = get_all_code_files b (walk e);
          r = scan_files b (file_info e) cache current_files;
          del = newly_deleted cache current_files;
          cache' = cache\<lparr>deleted_files := set_update (deleted_files cache) del\<rparr>
      in \<lparr>report = r, deleted_report = del, saved = cache',
          disk_after = save_cache b (writable e) cache' d\<rparr>)"

fun update_files :: "builder \<Rightarrow> (path \<Rightarrow> file_state option) \<Rightarrow> path list
    \<Rightarrow> (path \<times> file_state) list \<Rightarrow> (path \<times> file_state) list" where
  "update_files b info [] fs = fs"
| "update_files b info (abs_path # ps) fs =
     (case relpath (work_dir b) abs_path (Abs (repo_path b)) of
        None \<Rightarrow> update_files b info ps fs
      | Some rel_path \<Rightarrow>
          (case info abs_path of
             None \<Rightarrow> update_files b info ps fs
           | Some st \<Rightarrow> update_files b info ps (AList.update rel_path st fs)))"

definition update_cache :: "builder \<Rightarrow> env \<Rightarrow> path list \<Rightarrow> disk \<Rightarrow> disk" where
  "update_cache b e processed_files d =
     (let cache = load_cache b d;
          cache' = cache\<lparr>files := update_files b (file_info e) processed_files (files cache)\<rparr>
      in save_cache b (writable e) cache' d)"



subsection \<open>Sequences of tracker calls\<close>

datatype tracker_op = GetChanged env | UpdateCache env "path list"

fun deleted_reports :: "builder \<Rightarrow> disk \<Rightarrow> tracker_op list \<Rightarrow> path list list" where
  "deleted_reports b d [] = []"
| "deleted_reports b d (GetChanged e # ops) =
     deleted_report (get_changed_files b e d)
       # deleted_reports b (disk_after (get_changed_files b e d)) ops"
| "deleted_reports b d (UpdateCache e ps # ops) =
     deleted_reports b (update_cache b e ps d) ops"

subsection \<open>A small repository\<close>

definition ex_builder :: builder where
  "ex_builder = new_builder [''home''] (Abs [''repo'']) (Rel [''.build_cache''])"

definition ex_info :: "path \<Rightarrow> file_state option" where
  "ex_info p = (if p = Abs [''repo'', ''a.py''] then Some (2, ''h1'') else None)"

definition ex_env :: env where
  "ex_env = \<lparr>walk = [([''repo''], [''a.py''])], file_info = ex_info, writable = True\<rparr>"

definition ex_doc :: cache_doc where
  "ex_doc = CacheDoc [(Abs [''repo'', ''a.py''], (1, ''h1'')), (Abs [''repo'', ''b.py''], (1, ''h2''))] []"

definition ex_disk :: disk where
  "ex_disk p = (if p = Rel [''.build_cache'', ''repo_file_state.json''] then Some ex_doc else None)"

definition ex_info_same :: "path \<Rightarrow> file_state option" where
  "ex_info_same p = (if p = Abs [''repo'', ''a.py''] then Some (1, ''h1'') else None)"


definition ex_env_same :: env where
  "ex_env_same = \<lparr>walk = [([''repo''], [''a.py''])], file_info = ex_info_same, writable = True\<rparr>"

subsection \<open>Normal paths and well-formed caches\<close>

definition plain :: "string \<Rightarrow> bool" where
  "plain c = (c \<noteq> [] \<and> c \<noteq> ''.'' \<and> c \<noteq> ''..'')"

definition tracked_key :: "builder \<Rightarrow> path \<Rightarrow> bool" where
  "tracked_key b k = (\<exists>pl. list_all plain pl \<and> k = relpath_lists pl (repo_path b))"

definition good_cache :: "builder \<Rightarrow> build_cache \<Rightarrow> bool" where
  "good_cache b c = (distinct (map fst (files c)) \<and> (\<forall>k \<in> fst ` set (files c). tracked_key b k)
     \<and> distinct (deleted_files c))"


definition ex_ops :: "tracker_op list" where
  "ex_ops = [GetChanged ex_env, UpdateCache ex_env [Abs [''repo'', ''a.py'']], GetChanged ex_env_same]"

definition ex_disk_after :: disk where
  "ex_disk_after = disk_after (get_changed_files ex_builder ex_env ex_disk)"

section \<open>Strings (the str methods the chunkers use)\<close>

text \<open>Text is ASCII here: one character is one byte, and whitespace is what
  \<open>str.isspace\<close> accepts below 128.\<close>

definition is_space :: "char \<Rightarrow> bool" where
  "is_space c = (let n = (of_char c :: nat) in (9 \<le> n \<and> n \<le> 13) \<or> (28 \<le> n \<and> n \<le> 32))"

definition strip :: "string \<Rightarrow> string" where
  "strip s = rev (dropWhile is_space (rev (dropWhile is_space s)))"

fun split_from :: "char \<Rightarrow> string \<Rightarrow> string \<Rightarrow> string \<Rightarrow> string list" where
  "split_from c sep cur [] = [rev cur]"
| "split_from c sep cur (y # ys) =
     (if is_prefix (c # sep) (y # ys)
      then rev cur # split_from c sep [] (drop (length sep) ys)
      else split_from c sep (y # cur) ys)"

fun split :: "string \<Rightarrow> string \<Rightarrow> string list" where
  "split [] s = [s]"
| "split (c # sep) s = split_from c sep [] s"

fun replace_from :: "char \<Rightarrow> string \<Rightarrow> string \<Rightarrow> string \<Rightarrow> string" where
  "replace_from c old new [] = []"
| "replace_from c old new (y # ys) =
     (if is_prefix (c # old) (y # ys)
      then new @ replace_from c old new (drop (length old) ys)
      else y # replace_from c old new ys)"

fun replace :: "string \<Rightarrow> string \<Rightarrow> string \<Rightarrow> string" where
  "replace [] new s = s"
| "replace (c # old) new s = replace_from c old new s"

definition endswith :: "string \<Rightarrow> string \<Rightarrow> bool" where
  "endswith s suffix = is_prefix (rev suffix) (rev s)"

function str_nat :: "nat \<Rightarrow> string" where
  "str_nat n = (if n < 10 then [char_of (48 + n)] else str_nat (n div 10) @ [char_of (48 + n mod 10)])"
  by pat_completeness auto
termination
  by (relation "measure id") auto

section \<open>Syntax trees and captures\<close>

text \<open>
  The parser and the structural queries are outside the program. A node carries what the
  chunkers read from it: its identity, its type, its byte range, its first and last row and
  the link to its parent; two nodes are equal when they are the same node of the tree. A
  capture is a node with the label of the pattern that matched it.
\<close>

datatype node = Node (node_id: nat) (node_type: string) (start_byte: nat) (end_byte: nat)
  (start_row: nat) (end_row: nat) (node_parent: "node option")

type_synonym capture = "node \<times> string"

definition get_node_text :: "node \<Rightarrow> string \<Rightarrow> string" where
  "get_node_text n code_bytes = take (end_byte n - start_byte n) (drop (start_byte n) code_bytes)"

record meta =
  content :: string
  start_line :: nat
  end_line :: nat
  chunk_type :: string
  name :: string
  parent :: "string option"
  language :: string
  chunk_imports :: "string list"
  references :: "string list"

type_synonym chunk = "string \<times> meta"

text \<open>What the libraries give: the digest, the order in which this process iterates over
  a set of strings (given the elements in insertion order), whether \<open>str.encode\<close>
  accepts a text (a file name with bytes that are not UTF-8 is not accepted), the
  regular-expression searches of the writer (each the first group of the first match), and
  the import patterns of the Java, JavaScript and Kotlin chunkers.\<close>

record library =
  md5_hexdigest :: "string \<Rightarrow> string"
  set_order :: "string list \<Rightarrow> string list"
  encodable :: "string \<Rightarrow> bool"
  search_filename :: "string \<Rightarrow> string option"
  search_filepath :: "string \<Rightarrow> string option"
  search_language :: "string \<Rightarrow> string option"
  search_code_block :: "string \<Rightarrow> string option"
  search_java_import :: "string \<Rightarrow> string option"
  search_js_import_source :: "string \<Rightarrow> string option"
  search_kotlin_import :: "string \<Rightarrow> string option"

subsection \<open>References\<close>

definition python_keywords :: "string list" where
  "python_keywords = [''self'', ''None'', ''True'', ''False'', ''if'', ''else'', ''for'',
     ''while'', ''try'', ''except'', ''def'', ''class'', ''return'', ''with'', ''as'']"

definition java_keywords :: "string list" where
  "java_keywords = [''public'', ''private'', ''protected'', ''class'', ''interface'',
     ''extends'', ''implements'', ''return'', ''if'', ''else'', ''for'', ''while'', ''try'',
     ''catch'', ''finally'', ''throw'', ''throws'', ''new'', ''this'', ''super'', ''static'',
     ''final'', ''void'', ''true'', ''false'', ''null'']"

definition extract_references :: "library \<Rightarrow> string list \<Rightarrow> capture list \<Rightarrow> string \<Rightarrow> string list" where
  "extract_references lib keywords identifier_captures code_bytes =
     set_order lib (remdups (filter (\<lambda>identifier. identifier \<noteq> [] \<and> identifier \<notin> set keywords)
                                    (map (\<lambda>capture. get_node_text (fst capture) code_bytes)
                                         identifier_captures)))"

subsection \<open>Python chunker\<close>

record python_tree =
  py_import_captures :: "capture list"
  py_class_captures :: "capture list"
  py_function_captures :: "capture list"
  py_method_captures :: "capture list"
  py_identifier_captures :: "node \<Rightarrow> capture list"

definition nonempty_stripped :: "string list \<Rightarrow> string list" where
  "nonempty_stripped parts = filter (\<lambda>part. part \<noteq> []) (map strip parts)"

definition py_extract_imports :: "node \<Rightarrow> string \<Rightarrow> string list" where
  "py_extract_imports n code_bytes =
     (let import_text = get_node_text n code_bytes in
      if node_type n = ''import_statement''
      then nonempty_stripped (split '','' (strip (replace ''import'' [] import_text)))
      else if node_type n = ''import_from_statement''
      then (case split ''import'' import_text of
              p0 # p1 # rest \<Rightarrow>
                map (\<lambda>item. strip (replace ''from'' [] p0) @ ''.'' @ item)
                    (nonempty_stripped (split '','' (strip p1)))
            | _ \<Rightarrow> [])
      else [])"

text \<open>The walk \<open>while parent: ... parent = parent.parent\<close>, stopping at the first
  node of the given type; and, to state what it finds, the ancestors of a node from its
  parent up to the root.\<close>

fun enclosing :: "string \<Rightarrow> node option \<Rightarrow> node option" where
  "enclosing ty None = None"
| "enclosing ty (Some (Node i t sb eb sr er par)) =
     (if t = ty then Some (Node i t sb eb sr er par) else enclosing ty par)"

fun ancestors_from :: "node option \<Rightarrow> node list" where
  "ancestors_from None = []"
| "ancestors_from (Some (Node i t sb eb sr er par)) = Node i t sb eb sr er par # ancestors_from par"

definition ancestors :: "node \<Rightarrow> node list" where
  "ancestors n = ancestors_from (node_parent n)"

definition index_of :: "'a \<Rightarrow> 'a list \<Rightarrow> nat" where
  "index_of x xs = length (takeWhile (\<lambda>y. y \<noteq> x) xs)"

fun py_scan_classes :: "string \<Rightarrow> capture list \<Rightarrow> node \<Rightarrow> capture list \<Rightarrow> string option
    \<Rightarrow> string option" where
  "py_scan_classes code_bytes class_captures p [] parent_class = parent_class"
| "py_scan_classes code_bytes class_captures p (cap # caps) parent_class =
     py_scan_classes code_bytes class_captures p caps
       (if fst cap = p
        then (let class_name_idx = index_of cap class_captures + 1 in
              if class_name_idx < length class_captures
              then Some (get_node_text (fst (class_captures ! class_name_idx)) code_bytes)
              else parent_class)
        else parent_class)"

definition py_parent_class :: "string \<Rightarrow> capture list \<Rightarrow> node \<Rightarrow> string option" where
  "py_parent_class code_bytes class_captures method_node =
     (case enclosing ''class_definition'' (node_parent method_node) of
        None \<Rightarrow> None
      | Some p \<Rightarrow> py_scan_classes code_bytes class_captures p class_captures None)"

definition make_chunk :: "string \<Rightarrow> string \<Rightarrow> string \<Rightarrow> string option \<Rightarrow> string list
    \<Rightarrow> string list \<Rightarrow> node \<Rightarrow> node \<Rightarrow> string \<Rightarrow> chunk" where
  "make_chunk lang ty nm par all_imports refs n name_node code_bytes =
     (get_node_text n code_bytes,
      \<lparr>content = get_node_text n code_bytes, start_line = start_row n + 1,
       end_line = end_row n + 1, chunk_type = ty, name = nm, parent = par,
       language = lang, chunk_imports = all_imports, references = refs\<rparr>)"

fun py_classes :: "library \<Rightarrow> python_tree \<Rightarrow> string \<Rightarrow> string list \<Rightarrow> capture list \<Rightarrow> chunk list" where
  "py_classes lib t code_bytes all_imports (c # cn # caps) =
     make_chunk ''python'' ''class'' (get_node_text (fst cn) code_bytes) None all_imports
       (extract_references lib python_keywords (py_identifier_captures t (fst c)) code_bytes)
       (fst c) (fst cn) code_bytes
     # py_classes lib t code_bytes all_imports caps"
| "py_classes lib t code_bytes all_imports caps = []"

fun py_functions :: "library \<Rightarrow> python_tree \<Rightarrow> string \<Rightarrow> string list \<Rightarrow> capture list \<Rightarrow> chunk list" where
  "py_functions lib t code_bytes all_imports (f # fn # caps) =
     (if enclosing ''class_definition'' (node_parent (fst f)) \<noteq> None then []
      else [make_chunk ''python'' ''function'' (get_node_text (fst fn) code_bytes) None all_imports
              (extract_references lib python_keywords (py_identifier_captures t (fst f)) code_bytes)
              (fst f) (fst fn) code_bytes])
     @ py_functions lib t code_bytes all_imports caps"
| "py_functions lib t code_bytes all_imports caps = []"

fun py_methods :: "library \<Rightarrow> python_tree \<Rightarrow> string \<Rightarrow> string list \<Rightarrow> capture list \<Rightarrow> chunk list" where
  "py_methods lib t code_bytes all_imports (m # mn # caps) =
     make_chunk ''python'' ''method'' (get_node_text (fst mn) code_bytes)
       (py_parent_class code_bytes (py_class_captures t) (fst m)) all_imports
       (extract_references lib python_keywords (py_identifier_captures t (fst m)) code_bytes)
       (fst m) (fst mn) code_bytes
     # py_methods lib t code_bytes all_imports caps"
| "py_methods lib t code_bytes all_imports caps = []"

definition py_chunk_code :: "library \<Rightarrow> python_tree \<Rightarrow> string \<Rightarrow> chunk list" where
  "py_chunk_code lib t code_bytes =
     (let all_imports = concat (map (\<lambda>capture. py_extract_imports (fst capture) code_bytes)
                                    (py_import_captures t))
      in py_classes lib t code_bytes all_imports (py_class_captures t)
         @ py_functions lib t code_bytes all_imports (py_function_captures t)
         @ py_methods lib t code_bytes all_imports (py_method_captures t))"

subsection \<open>Java chunker\<close>

record java_tree =
  java_import_captures :: "capture list"
  java_captures :: "capture list"
  java_identifier_captures :: "node \<Rightarrow> capture list"

definition java_extract_imports :: "library \<Rightarrow> java_tree \<Rightarrow> string \<Rightarrow> string list" where
  "java_extract_imports lib t code_bytes =
     concat (map (\<lambda>capture.
        if snd capture = ''package'' then []
        else if snd capture = ''import''
        then (case search_java_import lib (get_node_text (fst capture) code_bytes) of
                None \<Rightarrow> []
              | Some import_path \<Rightarrow> [strip import_path])
        else []) (java_import_captures t))"

fun java_scan_classes :: "string \<Rightarrow> node \<Rightarrow> capture list \<Rightarrow> string option \<Rightarrow> string option" where
  "java_scan_classes code_bytes p [] parent_class = parent_class"
| "java_scan_classes code_bytes p [cap] parent_class = parent_class"
| "java_scan_classes code_bytes p (cap # nxt # caps) parent_class =
     java_scan_classes code_bytes p (nxt # caps)
       (if fst cap = p \<and> snd cap = ''class'' \<and> snd nxt = ''class_name''
        then Some (get_node_text (fst nxt) code_bytes)
        else parent_class)"

definition java_parent_class :: "string \<Rightarrow> capture list \<Rightarrow> node \<Rightarrow> string option" where
  "java_parent_class code_bytes captures n =
     (case enclosing ''class_declaration'' (node_parent n) of
        None \<Rightarrow> None
      | Some p \<Rightarrow> java_scan_classes code_bytes p captures None)"

definition java_chunk :: "library \<Rightarrow> java_tree \<Rightarrow> string \<Rightarrow> string list \<Rightarrow> string
    \<Rightarrow> node \<Rightarrow> node \<Rightarrow> chunk" where
  "java_chunk lib t code_bytes all_imports ty n name_node =
     make_chunk ''java'' ty (get_node_text name_node code_bytes)
       (if ty = ''class'' then None else java_parent_class code_bytes (java_captures t) n)
       all_imports
       (extract_references lib java_keywords (java_identifier_captures t n) code_bytes)
       n name_node code_bytes"

fun java_walk :: "library \<Rightarrow> java_tree \<Rightarrow> string \<Rightarrow> string list \<Rightarrow> capture list \<Rightarrow> chunk list" where
  "java_walk lib t code_bytes all_imports [] = []"
| "java_walk lib t code_bytes all_imports [cap] = []"
| "java_walk lib t code_bytes all_imports (cap # nxt # caps) =
     (if snd cap = ''class'' then
        (if snd nxt = ''class_name''
         then java_chunk lib t code_bytes all_imports ''class'' (fst cap) (fst nxt)
              # java_walk lib t code_bytes all_imports caps
         else java_walk lib t code_bytes all_imports (nxt # caps))
      else if snd cap = ''method'' then
        (if snd nxt = ''method_name''
         then java_chunk lib t code_bytes all_imports ''method'' (fst cap) (fst nxt)
              # java_walk lib t code_bytes all_imports caps
         else java_walk lib t code_bytes all_imports (nxt # caps))
      else if snd cap = ''constructor'' then
        (if snd nxt = ''constructor_name''
         then java_chunk lib t code_bytes all_imports ''constructor'' (fst cap) (fst nxt)
              # java_walk lib t code_bytes all_imports caps
         else java_walk lib t code_bytes all_imports (nxt # caps))
      else java_walk lib t code_bytes all_imports (nxt # caps))"

definition java_chunk_code :: "library \<Rightarrow> java_tree \<Rightarrow> string \<Rightarrow> chunk list" where
  "java_chunk_code lib t code_bytes =
     java_walk lib t code_bytes (java_extract_imports lib t code_bytes) (java_captures t)"

subsection \<open>JavaScript chunker\<close>

text \<open>The method branch of the JavaScript chunker finds the parent class with the same
  walk and the same scan of the captures as the Java chunker.\<close>

record js_tree =
  js_import_captures :: "capture list"
  js_captures :: "capture list"
  js_identifier_captures :: "node \<Rightarrow> capture list"

definition js_keywords :: "string list" where
  "js_keywords = [''function'', ''return'', ''const'', ''let'', ''var'', ''if'', ''else'',
     ''for'', ''while'', ''try'', ''catch'', ''this'', ''class'', ''true'', ''false'', ''null'',
     ''undefined'']"

fun js_imports :: "library \<Rightarrow> string \<Rightarrow> capture list \<Rightarrow> string option \<Rightarrow> string list" where
  "js_imports lib code_bytes [] current_source = []"
| "js_imports lib code_bytes (capture # caps) current_source =
     (if snd capture = ''import''
      then js_imports lib code_bytes caps
             (case search_js_import_source lib (get_node_text (fst capture) code_bytes) of
                None \<Rightarrow> current_source
              | Some src \<Rightarrow> Some src)
      else if snd capture = ''import_name'' \<or> snd capture = ''import_default''
              \<or> snd capture = ''namespace_import''
      then (case current_source of
              None \<Rightarrow> js_imports lib code_bytes caps current_source
            | Some src \<Rightarrow>
                if src = [] then js_imports lib code_bytes caps current_source
                else (src @ ''.'' @ get_node_text (fst capture) code_bytes)
                     # js_imports lib code_bytes caps current_source)
      else js_imports lib code_bytes caps current_source)"

definition js_extract_imports :: "library \<Rightarrow> js_tree \<Rightarrow> string \<Rightarrow> string list" where
  "js_extract_imports lib t code_bytes = js_imports lib code_bytes (js_import_captures t) None"

definition js_chunk :: "library \<Rightarrow> js_tree \<Rightarrow> string \<Rightarrow> string list \<Rightarrow> string
    \<Rightarrow> string \<Rightarrow> node \<Rightarrow> chunk" where
  "js_chunk lib t code_bytes all_imports ty nm n =
     make_chunk ''javascript'' ty nm
       (if ty = ''method'' then java_parent_class code_bytes (js_captures t) n else None)
       all_imports
       (extract_references lib js_keywords (js_identifier_captures t n) code_bytes)
       n n code_bytes"

fun js_walk :: "library \<Rightarrow> js_tree \<Rightarrow> string \<Rightarrow> string list \<Rightarrow> capture list \<Rightarrow> chunk list" where
  "js_walk lib t code_bytes all_imports [] = []"
| "js_walk lib t code_bytes all_imports [cap] =
     (if snd cap = ''arrow_function''
      then [js_chunk lib t code_bytes all_imports ''arrow_function'' ''anonymous_arrow_function''
              (fst cap)]
      else [])"
| "js_walk lib t code_bytes all_imports (cap # nxt # caps) =
     (if snd cap = ''function'' then
        (if snd nxt = ''function_name''
         then js_chunk lib t code_bytes all_imports ''function''
                (get_node_text (fst nxt) code_bytes) (fst cap)
              # js_walk lib t code_bytes all_imports caps
         else js_walk lib t code_bytes all_imports (nxt # caps))
      else if snd cap = ''method'' then
        (if snd nxt = ''method_name''
         then js_chunk lib t code_bytes all_imports ''method''
                (get_node_text (fst nxt) code_bytes) (fst cap)
              # js_walk lib t code_bytes all_imports caps
         else js_walk lib t code_bytes all_imports (nxt # caps))
      else if snd cap = ''class'' then
        (if snd nxt = ''class_name''
         then js_chunk lib t code_bytes all_imports ''class''
                (get_node_text (fst nxt) code_bytes) (fst cap)
              # js_walk lib t code_bytes all_imports caps
         else js_walk lib t code_bytes all_imports (nxt # caps))
      else if snd cap = ''arrow_function'' then
        (if snd nxt = ''param_name''
         then js_chunk lib t code_bytes all_imports ''arrow_function''
                (''arrow_function('' @ get_node_text (fst nxt) code_bytes @ '')'') (fst cap)
              # js_walk lib t code_bytes all_imports caps
         else js_chunk lib t code_bytes all_imports ''arrow_function''
                ''anonymous_arrow_function'' (fst cap)
              # js_walk lib t code_bytes all_imports (nxt # caps))
      else js_walk lib t code_bytes all_imports (nxt # caps))"

definition js_chunk_code :: "library \<Rightarrow> js_tree \<Rightarrow> string \<Rightarrow> chunk list" where
  "js_chunk_code lib t code_bytes =
     js_walk lib t code_bytes (js_extract_imports lib t code_bytes) (js_captures t)"

subsection \<open>Kotlin chunker\<close>

text \<open>The Kotlin chunker reads the children of a node; they are part of the tree the
  parser gives. A name is the text of the first child of type \<open>simple_identifier\<close>.\<close>

record kotlin_tree =
  kt_import_captures :: "capture list"
  kt_captures :: "capture list"
  kt_identifier_captures :: "node \<Rightarrow> capture list"
  kt_children :: "node \<Rightarrow> node list"

definition kotlin_keywords :: "string list" where
  "kotlin_keywords = [''val'', ''var'', ''fun'', ''class'', ''object'', ''interface'',
     ''override'', ''private'', ''public'', ''protected'', ''internal'', ''return'', ''if'',
     ''else'', ''when'', ''true'', ''false'', ''null'', ''this'', ''super'']"

definition kt_extract_imports :: "library \<Rightarrow> kotlin_tree \<Rightarrow> string \<Rightarrow> string list" where
  "kt_extract_imports lib t code_bytes =
     concat (map (\<lambda>capture.
        case search_kotlin_import lib (get_node_text (fst capture) code_bytes) of
          None \<Rightarrow> []
        | Some package_path \<Rightarrow> [strip package_path]) (kt_import_captures t))"

definition first_identifier :: "kotlin_tree \<Rightarrow> string \<Rightarrow> node \<Rightarrow> string option" where
  "first_identifier t code_bytes n =
     (case filter (\<lambda>child. node_type child = ''simple_identifier'') (kt_children t n) of
        [] \<Rightarrow> None
      | child # rest \<Rightarrow> Some (get_node_text child code_bytes))"

definition kt_name :: "kotlin_tree \<Rightarrow> string \<Rightarrow> node \<Rightarrow> string" where
  "kt_name t code_bytes n =
     (case first_identifier t code_bytes n of None \<Rightarrow> ''Unknown'' | Some nm \<Rightarrow> nm)"

definition kt_chunks :: "library \<Rightarrow> kotlin_tree \<Rightarrow> string \<Rightarrow> string list \<Rightarrow> capture
    \<Rightarrow> chunk list" where
  "kt_chunks lib t code_bytes all_imports capture =
     (let n = fst capture;
          refs = extract_references lib kotlin_keywords (kt_identifier_captures t n) code_bytes
      in if snd capture = ''class''
         then [make_chunk ''kotlin'' ''class'' (kt_name t code_bytes n) None all_imports refs
                 n n code_bytes]
         else if snd capture = ''function''
         then (case enclosing ''class_declaration'' (node_parent n) of
                 None \<Rightarrow>
                   [make_chunk ''kotlin'' ''function'' (kt_name t code_bytes n) None all_imports
                      refs n n code_bytes]
               | Some p \<Rightarrow>
                   [make_chunk ''kotlin'' ''method'' (kt_name t code_bytes n)
                      (first_identifier t code_bytes p) all_imports refs n n code_bytes])
         else [])"

definition kt_chunk_code :: "library \<Rightarrow> kotlin_tree \<Rightarrow> string \<Rightarrow> chunk list" where
  "kt_chunk_code lib t code_bytes =
     concat (map (kt_chunks lib t code_bytes (kt_extract_imports lib t code_bytes))
                 (kt_captures t))"

subsection \<open>Objective-C chunker\<close>

text \<open>The constructor of the Objective-C chunker does not create \<open>query_imports\<close>
  (the statement is commented out), and \<open>chunk_code\<close> calls \<open>extract_imports\<close>,
  which reads that attribute, before it looks at any capture: every call raises
  AttributeError and no chunk is emitted.\<close>

section \<open>Chunk repository writer (codeChunker.py)\<close>

text \<open>
  The engine parses a source text and evaluates the queries of the chunker of its language;
  it gives \<open>None\<close> when the parser or a query raises. The console says which of the
  messages the writer prints can be written to the standard output: \<open>print\<close> raises
  when the output cannot encode the message or is closed. File paths are plain strings
  here.
\<close>

record engine =
  parse_python :: "string \<Rightarrow> python_tree option"
  parse_java :: "string \<Rightarrow> java_tree option"
  parse_javascript :: "string \<Rightarrow> js_tree option"
  parse_kotlin :: "string \<Rightarrow> kotlin_tree option"

datatype error = FileError | EncodeError | ValueError string | ChunkerError | AttributeError
  | PrintError

record console =
  print_processed :: "string \<Rightarrow> nat \<Rightarrow> bool"
  print_error :: "string \<Rightarrow> error \<Rightarrow> bool"
  print_summary :: "nat \<Rightarrow> nat \<Rightarrow> bool"

record code_info =
  info_language :: string
  info_filename :: string
  info_filepath :: string

record chunk_data =
  r_id :: string
  r_text :: string
  r_source :: string
  r_filename :: string
  r_filepath :: string
  r_language :: string
  r_repository :: string
  r_chunk_index :: nat
  r_type :: string
  r_code_type :: string
  r_name :: string
  r_parent :: "string option"
  r_dependencies :: "string list"
  r_methods :: "string list"
  r_start_line :: nat
  r_end_line :: nat
  r_imports :: "string list"
  r_references :: "string list"

record code_chunker =
  input_dir :: string
  incremental :: bool
  repo_name :: string
  output_file :: string
  existing_chunks :: "(string \<times> chunk_data list) list"

definition str_basename :: "string \<Rightarrow> string" where
  "str_basename p = rev (takeWhile (\<lambda>c. c \<noteq> CHR ''/'') (rev p))"

definition path_join :: "string \<Rightarrow> string \<Rightarrow> string" where
  "path_join a b =
     (if is_prefix ''/'' b then b
      else if a = [] \<or> endswith a ''/'' then a @ b
      else a @ ''/'' @ b)"

fun load_existing_chunks :: "chunk_data list \<Rightarrow> (string \<times> chunk_data list) list
    \<Rightarrow> (string \<times> chunk_data list) list" where
  "load_existing_chunks [] acc = acc"
| "load_existing_chunks (chunk # lines) acc =
     load_existing_chunks lines
       (if r_source chunk = [] then acc
        else (case map_of acc (r_source chunk) of
                None \<Rightarrow> acc @ [(r_source chunk, [chunk])]
              | Some cs \<Rightarrow> AList.update (r_source chunk) (cs @ [chunk]) acc))"

text \<open>The constructor: \<open>stored\<close> is the content of the output file, \<open>None\<close> when the
  file does not exist or cannot be loaded.\<close>

definition new_chunker :: "string \<Rightarrow> bool \<Rightarrow> chunk_data list option \<Rightarrow> code_chunker" where
  "new_chunker dir inc stored =
     \<lparr>input_dir = dir, incremental = inc, repo_name = str_basename dir,
      output_file = ''artifacts/chunks/'' @ str_basename dir @ ''_code_chunks_ast.jsonl'',
      existing_chunks = (if inc then (case stored of None \<Rightarrow> []
                                       | Some lines \<Rightarrow> load_existing_chunks lines [])
                         else [])\<rparr>"

definition generate_uid :: "library \<Rightarrow> string \<Rightarrow> string \<Rightarrow> string" where
  "generate_uid lib file_path chunk_id = md5_hexdigest lib (file_path @ '':'' @ chunk_id)"

definition extract_code_info :: "library \<Rightarrow> string \<Rightarrow> code_info" where
  "extract_code_info lib content_str =
     \<lparr>info_language = (case search_language lib content_str of None \<Rightarrow> ''unknown'' | Some l \<Rightarrow> l),
      info_filename = (case search_filename lib content_str of None \<Rightarrow> [] | Some f \<Rightarrow> f),
      info_filepath = (case search_filepath lib content_str of None \<Rightarrow> [] | Some f \<Rightarrow> f)\<rparr>"

definition extract_code_content :: "library \<Rightarrow> string \<Rightarrow> string" where
  "extract_code_content lib content_str =
     (case search_code_block lib content_str of None \<Rightarrow> content_str | Some g \<Rightarrow> g)"

definition run_chunker :: "'a option \<Rightarrow> ('a \<Rightarrow> chunk list) \<Rightarrow> error + chunk list" where
  "run_chunker parsed f = (case parsed of None \<Rightarrow> Inl ChunkerError | Some t \<Rightarrow> Inr (f t))"

definition chunk_code_by_language :: "library \<Rightarrow> engine \<Rightarrow> string \<Rightarrow> string
    \<Rightarrow> error + chunk list" where
  "chunk_code_by_language lib eng code lang =
     (if lang = ''py'' \<or> lang = ''python''
        then run_chunker (parse_python eng code) (\<lambda>t. py_chunk_code lib t code)
      else if lang = ''js'' \<or> lang = ''javascript''
        then run_chunker (parse_javascript eng code) (\<lambda>t. js_chunk_code lib t code)
      else if lang = ''java''
        then run_chunker (parse_java eng code) (\<lambda>t. java_chunk_code lib t code)
      else if lang = ''kt'' \<or> lang = ''kotlin''
        then run_chunker (parse_kotlin eng code) (\<lambda>t. kt_chunk_code lib t code)
      else if lang = ''objc''
        then Inl AttributeError
      else Inl (ValueError lang))"

definition chunk_record :: "library \<Rightarrow> code_chunker \<Rightarrow> string \<Rightarrow> code_info \<Rightarrow> nat \<Rightarrow> chunk
    \<Rightarrow> chunk_data" where
  "chunk_record lib self file_path info i ch =
     (let chunk_meta = snd ch;
          chunk_id = info_filename info @ '':'' @ chunk_type chunk_meta @ '':'' @ str_nat i
      in \<lparr>r_id = generate_uid lib file_path chunk_id,
          r_text = content chunk_meta,
          r_source = file_path,
          r_filename = info_filename info,
          r_filepath = info_filepath info,
          r_language = info_language info,
          r_repository = repo_name self,
          r_chunk_index = i,
          r_type = chunk_type chunk_meta,
          r_code_type = chunk_type chunk_meta,
          r_name = name chunk_meta,
          r_parent = parent chunk_meta,
          r_dependencies = [],
          r_methods = [],
          r_start_line = start_line chunk_meta,
          r_end_line = end_line chunk_meta,
          r_imports = chunk_imports chunk_meta,
          r_references = references chunk_meta\<rparr>)"

fun build_records :: "library \<Rightarrow> code_chunker \<Rightarrow> string \<Rightarrow> code_info \<Rightarrow> nat \<Rightarrow> chunk list
    \<Rightarrow> chunk_data list" where
  "build_records lib self file_path info i [] = []"
| "build_records lib self file_path info i (ch # code_chunks) =
     (if strip (fst ch) = [] then []
      else [chunk_record lib self file_path info i ch])
     @ build_records lib self file_path info (Suc i) code_chunks"

text \<open>
  The body of the \<open>try\<close> of \<open>process_file\<close>: reading the file, the digest of
  the path (whose \<open>encode\<close> raises on a path that cannot be encoded; the other parts
  of a hashed text come from the decoded content and from literals), the chunker, the
  records, and the message that the file was processed.
\<close>

definition try_process_file :: "library \<Rightarrow> engine \<Rightarrow> console \<Rightarrow> (string \<Rightarrow> string option)
    \<Rightarrow> code_chunker \<Rightarrow> string \<Rightarrow> error + chunk_data list" where
  "try_process_file lib eng con read_file self file_path =
     (case read_file file_path of
        None \<Rightarrow> Inl FileError
      | Some content_str \<Rightarrow>
          (let info = extract_code_info lib content_str;
               code_content = extract_code_content lib content_str
           in if \<not> encodable lib file_path then Inl EncodeError
              else case chunk_code_by_language lib eng code_content (info_language info) of
                Inl e \<Rightarrow> Inl e
              | Inr code_chunks \<Rightarrow>
                  (let result = build_records lib self file_path info 0 code_chunks
                   in if print_processed con file_path (length result) then Inr result
                      else Inl PrintError)))"

text \<open>\<open>process_file\<close>: the handler prints the error and returns the empty list; when
  that \<open>print\<close> raises, the exception leaves \<open>process_file\<close> (\<open>Inl\<close>).\<close>

definition process_file :: "library \<Rightarrow> engine \<Rightarrow> console \<Rightarrow> (string \<Rightarrow> string option)
    \<Rightarrow> code_chunker \<Rightarrow> string \<Rightarrow> error + chunk_data list" where
  "process_file lib eng con read_file self file_path =
     (case try_process_file lib eng con read_file self file_path of
        Inl e \<Rightarrow> if print_error con file_path e then Inr [] else Inl PrintError
      | Inr result \<Rightarrow> Inr result)"

definition curated_files :: "(string \<times> string list) list \<Rightarrow> string list" where
  "curated_files w =
     concat (map (\<lambda>(rt, fs).
        filter (\<lambda>file_path. str_basename file_path \<noteq> ''_repo_metadata.md'')
               (map (path_join rt) (filter (\<lambda>file. endswith file ''.md'') fs))) w)"

text \<open>The loop of \<open>process_directory\<close> over the curated files: an exception that
  leaves \<open>process_file\<close> ends it.\<close>

fun process_files :: "(string \<Rightarrow> error + chunk_data list) \<Rightarrow> string list \<Rightarrow> chunk_data list
    \<Rightarrow> error + chunk_data list" where
  "process_files pf [] all_chunks = Inr all_chunks"
| "process_files pf (file_path # rest) all_chunks =
     (case pf file_path of
        Inl e \<Rightarrow> Inl e
      | Inr chunks \<Rightarrow> process_files pf rest (all_chunks @ chunks))"

definition process_directory :: "library \<Rightarrow> engine \<Rightarrow> console \<Rightarrow> (string \<Rightarrow> string option)
    \<Rightarrow> (string \<times> string list) list \<Rightarrow> code_chunker \<Rightarrow> error + chunk_data list" where
  "process_directory lib eng con read_file w self =
     (case process_files (process_file lib eng con read_file self) (curated_files w) [] of
        Inl e \<Rightarrow> Inl e
      | Inr all_chunks \<Rightarrow>
          if print_summary con (length (curated_files w)) (length all_chunks)
          then Inr all_chunks else Inl PrintError)"

definition save_jsonl :: "code_chunker \<Rightarrow> chunk_data list \<Rightarrow> string list \<Rightarrow> chunk_data list" where
  "save_jsonl self chunks processed_files =
     (if incremental self \<and> processed_files \<noteq> []
      then concat (map snd (filter (\<lambda>(source, file_chunks). source \<notin> set processed_files)
                                   (existing_chunks self)))
           @ chunks
      else chunks)"

text \<open>\<open>run\<close> gives what is written to the output file, or the exception that ended
  the run before anything was written.\<close>

definition run :: "library \<Rightarrow> engine \<Rightarrow> console \<Rightarrow> (string \<Rightarrow> string option)
    \<Rightarrow> (string \<times> string list) list \<Rightarrow> code_chunker \<Rightarrow> error + chunk_data list" where
  "run lib eng con read_file w self =
     (case process_directory lib eng con read_file w self of
        Inl e \<Rightarrow> Inl e
      | Inr chunks \<Rightarrow> Inr (save_jsonl self chunks (remdups (map r_source chunks))))"

subsection \<open>A small curated directory\<close>

definition ex_java_code :: string where
  "ex_java_code = ''class Foo { void bar() {} }''"

definition ex_py_code :: string where
  "ex_py_code = ''def f(a): return b''"

definition ex_program :: node where
  "ex_program = Node 0 ''program'' 0 27 0 0 None"

definition ex_class :: node where
  "ex_class = Node 1 ''class_declaration'' 0 27 0 0 (Some ex_program)"

definition ex_class_name :: node where
  "ex_class_name = Node 2 ''identifier'' 6 9 0 0 (Some ex_class)"

definition ex_class_body :: node where
  "ex_class_body = Node 3 ''class_body'' 10 27 0 0 (Some ex_class)"

definition ex_method :: node where
  "ex_method = Node 4 ''method_declaration'' 12 25 0 0 (Some ex_class_body)"

definition ex_method_name :: node where
  "ex_method_name = Node 5 ''identifier'' 17 20 0 0 (Some ex_method)"

definition ex_java_tree :: java_tree where
  "ex_java_tree =
     \<lparr>java_import_captures = [],
      java_captures = [(ex_class, ''class''), (ex_class_name, ''class_name''),
                       (ex_method, ''method''), (ex_method_name, ''method_name'')],
      java_identifier_captures = (\<lambda>n. if n = ex_class
          then [(ex_class_name, ''identifier''), (ex_method_name, ''identifier'')]
          else if n = ex_method then [(ex_method_name, ''identifier'')] else [])\<rparr>"

definition ex_module :: node where
  "ex_module = Node 0 ''module'' 0 18 0 0 None"

definition ex_function :: node where
  "ex_function = Node 1 ''function_definition'' 0 18 0 0 (Some ex_module)"

definition ex_function_name :: node where
  "ex_function_name = Node 2 ''identifier'' 4 5 0 0 (Some ex_function)"

definition ex_param :: node where
  "ex_param = Node 3 ''identifier'' 6 7 0 0 (Some ex_function)"

definition ex_use :: node where
  "ex_use = Node 4 ''identifier'' 17 18 0 0 (Some ex_function)"

definition ex_py_tree :: python_tree where
  "ex_py_tree =
     \<lparr>py_import_captures = [], py_class_captures = [],
      py_function_captures = [(ex_function, ''function''), (ex_function_name, ''function_name'')],
      py_method_captures = [],
      py_identifier_captures = (\<lambda>n. if n = ex_function
          then [(ex_function_name, ''identifier''), (ex_param, ''identifier''), (ex_use, ''identifier'')]
          else [])\<rparr>"

definition ex_empty_tree :: python_tree where
  "ex_empty_tree =
     \<lparr>py_import_captures = [], py_class_captures = [], py_function_captures = [],
      py_method_captures = [], py_identifier_captures = (\<lambda>n. [])\<rparr>"

subsection \<open>Nested classes in Java, a JavaScript class and a Kotlin class\<close>

definition ex_nested_code :: string where
  "ex_nested_code = ''class A { class B { void m() {} } }''"

definition ex_outer :: node where
  "ex_outer = Node 1 ''class_declaration'' 0 35 0 0 (Some (Node 0 ''program'' 0 35 0 0 None))"

definition ex_outer_name :: node where
  "ex_outer_name = Node 2 ''identifier'' 6 7 0 0 (Some ex_outer)"

definition ex_outer_body :: node where
  "ex_outer_body = Node 3 ''class_body'' 8 35 0 0 (Some ex_outer)"

definition ex_inner :: node where
  "ex_inner = Node 4 ''class_declaration'' 10 33 0 0 (Some ex_outer_body)"

definition ex_inner_name :: node where
  "ex_inner_name = Node 5 ''identifier'' 16 17 0 0 (Some ex_inner)"

definition ex_inner_body :: node where
  "ex_inner_body = Node 6 ''class_body'' 18 33 0 0 (Some ex_inner)"

definition ex_inner_method :: node where
  "ex_inner_method = Node 7 ''method_declaration'' 20 31 0 0 (Some ex_inner_body)"

definition ex_inner_method_name :: node where
  "ex_inner_method_name = Node 8 ''identifier'' 25 26 0 0 (Some ex_inner_method)"

definition ex_nested_tree :: java_tree where
  "ex_nested_tree =
     \<lparr>java_import_captures = [],
      java_captures = [(ex_outer, ''class''), (ex_outer_name, ''class_name''),
                       (ex_inner, ''class''), (ex_inner_name, ''class_name''),
                       (ex_inner_method, ''method''), (ex_inner_method_name, ''method_name'')],
      java_identifier_captures = (\<lambda>n. [])\<rparr>"

definition ex_js_code :: string where
  "ex_js_code = ''class J { m() {} }''"

definition ex_js_class :: node where
  "ex_js_class = Node 1 ''class_declaration'' 0 18 0 0 (Some (Node 0 ''program'' 0 18 0 0 None))"

definition ex_js_class_name :: node where
  "ex_js_class_name = Node 2 ''identifier'' 6 7 0 0 (Some ex_js_class)"

definition ex_js_body :: node where
  "ex_js_body = Node 3 ''class_body'' 8 18 0 0 (Some ex_js_class)"

definition ex_js_method :: node where
  "ex_js_method = Node 4 ''method_definition'' 10 16 0 0 (Some ex_js_body)"

definition ex_js_method_name :: node where
  "ex_js_method_name = Node 5 ''property_identifier'' 10 11 0 0 (Some ex_js_method)"

definition ex_js_tree :: js_tree where
  "ex_js_tree =
     \<lparr>js_import_captures = [],
      js_captures = [(ex_js_class, ''class''), (ex_js_class_name, ''class_name''),
                     (ex_js_method, ''method''), (ex_js_method_name, ''method_name'')],
      js_identifier_captures = (\<lambda>n. [])\<rparr>"

text \<open>A Kotlin class with one member function, as the grammar the chunker loads for
  Kotlin (\<open>fwcd/tree-sitter-kotlin\<close>) parses it: the name of a class is a child of type
  \<open>type_identifier\<close>, the name of a function a child of type
  \<open>simple_identifier\<close>.\<close>

definition ex_kt_code :: string where
  "ex_kt_code = ''class K { fun g() {} }''"

definition ex_kt_class :: node where
  "ex_kt_class = Node 1 ''class_declaration'' 0 22 0 0 (Some (Node 0 ''source_file'' 0 22 0 0 None))"

definition ex_kt_class_keyword :: node where
  "ex_kt_class_keyword = Node 2 ''class'' 0 5 0 0 (Some ex_kt_class)"

definition ex_kt_class_name :: node where
  "ex_kt_class_name = Node 3 ''type_identifier'' 6 7 0 0 (Some ex_kt_class)"

definition ex_kt_body :: node where
  "ex_kt_body = Node 4 ''class_body'' 8 22 0 0 (Some ex_kt_class)"

definition ex_kt_function :: node where
  "ex_kt_function = Node 5 ''function_declaration'' 10 20 0 0 (Some ex_kt_body)"

definition ex_kt_fun_keyword :: node where
  "ex_kt_fun_keyword = Node 6 ''fun'' 10 13 0 0 (Some ex_kt_function)"

definition ex_kt_function_name :: node where
  "ex_kt_function_name = Node 7 ''simple_identifier'' 14 15 0 0 (Some ex_kt_function)"

definition ex_kt_parameters :: node where
  "ex_kt_parameters = Node 8 ''function_value_parameters'' 15 17 0 0 (Some ex_kt_function)"

definition ex_kt_function_body :: node where
  "ex_kt_function_body = Node 9 ''function_body'' 18 20 0 0 (Some ex_kt_function)"

definition ex_kt_tree :: kotlin_tree where
  "ex_kt_tree =
     \<lparr>kt_import_captures = [],
      kt_captures = [(ex_kt_class, ''class''), (ex_kt_function, ''function'')],
      kt_identifier_captures = (\<lambda>n. if n = ex_kt_class \<or> n = ex_kt_function
                                     then [(ex_kt_function_name, ''identifier'')] else []),
      kt_children = (\<lambda>n. if n = ex_kt_class
                          then [ex_kt_class_keyword, ex_kt_class_name, ex_kt_body]
                          else if n = ex_kt_function
                          then [ex_kt_fun_keyword, ex_kt_function_name, ex_kt_parameters,
                                ex_kt_function_body]
                          else [])\<rparr>"

subsection \<open>The library, the engine and the files of the small directory\<close>

definition ex_lib :: library where
  "ex_lib =
     \<lparr>md5_hexdigest = (\<lambda>s. ''md5('' @ s @ '')''),
      set_order = (\<lambda>xs. xs),
      encodable = (\<lambda>s. True),
      search_filename = (\<lambda>c. if c = ''<f.py>'' then Some ''f.py''
                            else if c = ''<Foo.java>'' then Some ''Foo.java''
                            else if c = ''<g.rb>'' then Some ''g.rb''
                            else if c = ''<e.py>'' then Some ''e.py''
                            else if c = ''<k.kt>'' then Some ''k.kt''
                            else if c = ''<K.kt>'' then Some ''K.kt'' else None),
      search_filepath = (\<lambda>c. None),
      search_language = (\<lambda>c. if c = ''<f.py>'' \<or> c = ''<e.py>'' then Some ''python''
                            else if c = ''<Foo.java>'' then Some ''java''
                            else if c = ''<g.rb>'' then Some ''ruby''
                            else if c = ''<k.kt>'' \<or> c = ''<K.kt>'' then Some ''kotlin''
                            else None),
      search_code_block = (\<lambda>c. if c = ''<f.py>'' then Some ex_py_code
                            else if c = ''<Foo.java>'' then Some ex_java_code
                            else if c = ''<e.py>'' then Some ''x = 1''
                            else if c = ''<k.kt>'' then Some ''a  b''
                            else if c = ''<K.kt>'' then Some ex_kt_code else None),
      search_java_import = (\<lambda>s. None),
      search_js_import_source = (\<lambda>s. None),
      search_kotlin_import = (\<lambda>s. None)\<rparr>"

definition ex_lib_rev :: library where
  "ex_lib_rev = ex_lib\<lparr>set_order := rev\<rparr>"

text \<open>Three Kotlin class captures over the text \<open>a  b\<close>; the second spans the two
  blanks.\<close>

definition ex_blank_root :: node where
  "ex_blank_root = Node 0 ''source_file'' 0 4 0 0 None"

definition ex_blank_tree :: kotlin_tree where
  "ex_blank_tree =
     \<lparr>kt_import_captures = [],
      kt_captures = [(Node 1 ''class_declaration'' 0 1 0 0 (Some ex_blank_root), ''class''),
                     (Node 2 ''class_declaration'' 1 3 0 0 (Some ex_blank_root), ''class''),
                     (Node 3 ''class_declaration'' 3 4 0 0 (Some ex_blank_root), ''class'')],
      kt_identifier_captures = (\<lambda>n. []),
      kt_children = (\<lambda>n. [])\<rparr>"

definition ex_blank_chunks :: "chunk list" where
  "ex_blank_chunks = kt_chunk_code ex_lib ex_blank_tree ''a  b''"

definition ex_engine :: engine where
  "ex_engine =
     \<lparr>parse_python = (\<lambda>code. if code = ex_py_code then Some ex_py_tree else Some ex_empty_tree),
      parse_java = (\<lambda>code. if code = ex_java_code then Some ex_java_tree else None),
      parse_javascript = (\<lambda>code. if code = ex_js_code then Some ex_js_tree else None),
      parse_kotlin = (\<lambda>code. if code = ''a  b'' then Some ex_blank_tree
                            else if code = ex_kt_code then Some ex_kt_tree else None)\<rparr>"

definition ex_console :: console where
  "ex_console =
     \<lparr>print_processed = (\<lambda>p n. True), print_error = (\<lambda>p e. True),
      print_summary = (\<lambda>k n. True)\<rparr>"

text \<open>A file whose name has the byte 0xFF, which occurs in no UTF-8 text: the directory
  walk gives such a name with a lone surrogate in its place, and the strict encoders of
  \<open>str.encode\<close> and of the standard output raise on it.\<close>

definition strict_encodable :: "string \<Rightarrow> bool" where
  "strict_encodable s = list_all (\<lambda>c. c \<noteq> CHR 0xFF) s"

definition ex_bad_name :: string where
  "ex_bad_name = [CHR 0xFF] @ ''.md''"

definition ex_strict_lib :: library where
  "ex_strict_lib = ex_lib\<lparr>encodable := strict_encodable\<rparr>"

definition ex_strict_console :: console where
  "ex_strict_console =
     \<lparr>print_processed = (\<lambda>p n. strict_encodable p),
      print_error = (\<lambda>p e. strict_encodable p),
      print_summary = (\<lambda>k n. True)\<rparr>"

definition ex_read :: "string \<Rightarrow> string option" where
  "ex_read p = (if p = ''d/f.md'' then Some ''<f.py>''
                else if p = ''d/Foo.md'' then Some ''<Foo.java>''
                else if p = ''d/g.md'' then Some ''<g.rb>''
                else if p = ''d/e.md'' then Some ''<e.py>''
                else if p = ''d/k.md'' then Some ''<k.kt>''
                else if p = ''d/K.md'' then Some ''<K.kt>''
                else if p = ''d/'' @ ex_bad_name then Some ''<f.py>'' else None)"

definition ex_stale :: chunk_data where
  "ex_stale =
     \<lparr>r_id = ''md5(d/e.md:e.py:function:0)'', r_text = ''def old(): pass'', r_source = ''d/e.md'',
      r_filename = ''e.py'', r_filepath = [], r_language = ''python'', r_repository = ''d'',
      r_chunk_index = 0, r_type = ''function'', r_code_type = ''function'', r_name = ''old'',
      r_parent = None, r_dependencies = [], r_methods = [], r_start_line = 1, r_end_line = 1,
      r_imports = [], r_references = [''old'']\<rparr>"

definition ex_chunker :: code_chunker where
  "ex_chunker = new_chunker ''d'' True (Some [ex_stale])"

definition supported_languages :: "string list" where
  "supported_languages = [''py'', ''python'', ''js'', ''javascript'', ''java'', ''kt'', ''kotlin'', ''objc'']"

subsection \<open>Comparing two runs\<close>

text \<open>Two chunks, or two records, agree when they differ at most in the order of their
  references; an iteration order of sets lists exactly the elements it is given.\<close>

definition chunk_agree :: "chunk \<Rightarrow> chunk \<Rightarrow> bool" where
  "chunk_agree ch ch' =
     (fst ch' = fst ch
      \<and> snd ch' = (snd ch)\<lparr>references := references (snd ch')\<rparr>
      \<and> set (references (snd ch')) = set (references (snd ch)))"

definition same_but_references :: "chunk_data \<Rightarrow> chunk_data \<Rightarrow> bool" where
  "same_but_references r r' =
     (r' = r\<lparr>r_references := r_references r'\<rparr>
      \<and> set (r_references r') = set (r_references r))"

definition enumerates :: "(string list \<Rightarrow> string list) \<Rightarrow> bool" where
  "enumerates ord = (\<forall>xs. set (ord xs) = set xs)"

subsection \<open>A Python class with one method\<close>

definition ex_class_code :: string where
  "ex_class_code = ''class C:'' @ [CHR 0x0A] @ ''  def m(self): pass''"

definition ex_py_module :: node where
  "ex_py_module = Node 0 ''module'' 0 28 0 1 None"

definition ex_py_class :: node where
  "ex_py_class = Node 1 ''class_definition'' 0 28 0 1 (Some ex_py_module)"

definition ex_py_class_name :: node where
  "ex_py_class_name = Node 2 ''identifier'' 6 7 0 0 (Some ex_py_class)"

definition ex_py_block :: node where
  "ex_py_block = Node 3 ''block'' 11 28 1 1 (Some ex_py_class)"

definition ex_py_method :: node where
  "ex_py_method = Node 4 ''function_definition'' 11 28 1 1 (Some ex_py_block)"

definition ex_py_method_name :: node where
  "ex_py_method_name = Node 5 ''identifier'' 15 16 1 1 (Some ex_py_method)"

definition ex_py_self :: node where
  "ex_py_self = Node 6 ''identifier'' 17 21 1 1 (Some ex_py_method)"

definition ex_class_tree :: python_tree where
  "ex_class_tree =
     \<lparr>py_import_captures = [],
      py_class_captures = [(ex_py_class, ''class''), (ex_py_class_name, ''class_name'')],
      py_function_captures = [(ex_py_method, ''function''), (ex_py_method_name, ''function_name'')],
      py_method_captures = [(ex_py_method, ''method''), (ex_py_method_name, ''method_name'')],
      py_identifier_captures = (\<lambda>n. if n = ex_py_class
          then [(ex_py_class_name, ''identifier''), (ex_py_method_name, ''identifier''),
                (ex_py_self, ''identifier'')]
          else if n = ex_py_method
          then [(ex_py_method_name, ''identifier''), (ex_py_self, ''identifier'')] else [])\<rparr>"

section \<open>Properties of the tracker\<close>






lemma relpath_lists_rel: "\<exists>cs. relpath_lists pl sl = Rel cs"
  by (simp add: relpath_lists_def Let_def)








lemma saved_files_gcf: "files (saved (get_changed_files b e d)) = files (load_cache b d)"
  by (simp add: get_changed_files_def Let_def)

lemma set_set_update: "set (set_update s new) = set s \<union> set new"
  by (auto simp: set_update_def)

lemma distinct_set_update: "distinct s \<Longrightarrow> distinct (set_update s new)"
  by (auto simp: set_update_def)

lemma deleted_report_gcf:
  "deleted_report (get_changed_files b e d) =
     newly_deleted (load_cache b d) (get_all_code_files b (walk e))"
  by (simp add: get_changed_files_def Let_def)

lemma saved_deleted_gcf:
  "set (deleted_files (saved (get_changed_files b e d))) =
     set (deleted_files (load_cache b d)) \<union> set (deleted_report (get_changed_files b e d))"
  by (simp add: get_changed_files_def Let_def set_set_update)

lemma disk_after_gcf:
  "disk_after (get_changed_files b e d) =
     save_cache b (writable e) (saved (get_changed_files b e d)) d"
  by (simp add: get_changed_files_def Let_def)

lemma keys_save_files:
  "fst ` set (save_files b fs acc) = fst ` set acc \<union> join (Abs (repo_path b)) ` fst ` set fs"
  by (induction b fs acc rule: save_files.induct) (auto simp: dom_update)

lemma join_abs_is_abs: "is_abs (join (Abs r) k)"
  by (cases k) simp_all

lemma relpath_abs_some: "is_abs k \<Longrightarrow> relpath cwd k s \<noteq> None"
  by (cases k) (simp_all add: relpath_def)

lemma load_files_some:
  "\<forall>k \<in> fst ` set kvs. is_abs k \<Longrightarrow> \<exists>fs. load_files b kvs acc = Some fs"
proof (induction b kvs acc rule: load_files.induct)
  case (1 b acc)
  then show ?case by simp
next
  case (2 b k v kvs acc)
  from 2(2) have "is_abs k" by simp
  then obtain r where r: "relpath (work_dir b) k (Abs (repo_path b)) = Some r"
    using relpath_abs_some by blast
  from 2(2) have "\<forall>k \<in> fst ` set kvs. is_abs k" by simp
  from 2(1)[OF r this] show ?case using r by simp
qed

lemma deleted_load_abs_cache:
  "deleted_files (load_doc b (abs_cache b c)) = remdups (deleted_files c)"
proof -
  have "\<forall>k \<in> fst ` set (save_files b (files c) []). is_abs k"
    by (auto simp: keys_save_files join_abs_is_abs)
  then obtain fs where "load_files b (save_files b (files c) []) [] = Some fs"
    using load_files_some by blast
  then show ?thesis by (simp add: load_doc_def abs_cache_def)
qed

lemma load_after_save:
  "load_cache b (save_cache b True c d) = load_doc b (abs_cache b c)"
  by (simp add: load_cache_def save_cache_def)

lemma deleted_mono_gcf:
  "set (deleted_files (load_cache b d))
     \<subseteq> set (deleted_files (load_cache b (disk_after (get_changed_files b e d))))"
proof (cases "writable e")
  case True
  then show ?thesis
    by (simp add: disk_after_gcf load_after_save deleted_load_abs_cache saved_deleted_gcf)
next
  case False
  then show ?thesis by (simp add: disk_after_gcf save_cache_def)
qed

lemma deleted_mono_update:
  "set (deleted_files (load_cache b d))
     \<subseteq> set (deleted_files (load_cache b (update_cache b e ps d)))"
proof (cases "writable e")
  case True
  then show ?thesis
    by (simp add: update_cache_def Let_def load_after_save deleted_load_abs_cache)
next
  case False
  then show ?thesis by (simp add: update_cache_def Let_def save_cache_def)
qed

lemma recorded_not_reported:
  "p \<in> set (deleted_files (load_cache b d)) \<Longrightarrow> p \<notin> set (deleted_report (get_changed_files b e d))"
  by (simp add: deleted_report_gcf newly_deleted_def)

lemma recorded_never_reported:
  "p \<in> set (deleted_files (load_cache b d)) \<Longrightarrow> \<forall>r \<in> set (deleted_reports b d ops). p \<notin> set r"
proof (induction ops arbitrary: d)
  case Nil
  then show ?case by simp
next
  case (Cons op ops)
  show ?case
  proof (cases op)
    case (GetChanged e)
    have "p \<in> set (deleted_files (load_cache b (disk_after (get_changed_files b e d))))"
      using Cons.prems deleted_mono_gcf by blast
    from Cons.IH[OF this] recorded_not_reported[OF Cons.prems] show ?thesis
      using GetChanged by simp
  next
    case (UpdateCache e ps)
    have "p \<in> set (deleted_files (load_cache b (update_cache b e ps d)))"
      using Cons.prems deleted_mono_update by blast
    from Cons.IH[OF this] show ?thesis using UpdateCache by simp
  qed
qed


lemma normpath_step_plain: "list_all plain acc \<Longrightarrow> list_all plain (normpath_step acc c)"
  by (auto simp: normpath_step_def plain_def list_all_iff dest: in_set_butlastD)

lemma normpath_foldl_plain:
  "list_all plain acc \<Longrightarrow> list_all plain (foldl normpath_step acc cs)"
  by (induction cs arbitrary: acc) (simp_all add: normpath_step_plain)

lemma normpath_abs_plain: "list_all plain (normpath_abs cs)"
  by (simp add: normpath_abs_def normpath_foldl_plain)

lemma normpath_foldl_id: "list_all plain cs \<Longrightarrow> foldl normpath_step acc cs = acc @ cs"
  by (induction cs arbitrary: acc) (simp_all add: normpath_step_def plain_def)

lemma normpath_abs_id: "list_all plain cs \<Longrightarrow> normpath_abs cs = cs"
  by (simp add: normpath_abs_def normpath_foldl_id)

lemma normpath_foldl_ups:
  "foldl normpath_step acc (replicate n ''..'') = take (length acc - n) acc"
proof (induction n arbitrary: acc)
  case 0
  then show ?case by simp
next
  case (Suc n)
  have "normpath_step acc ''..'' = butlast acc" by (simp add: normpath_step_def)
  then show ?case using Suc[of "butlast acc"] by (simp add: butlast_conv_take min_def)
qed

lemma commonprefix_take_left: "commonprefix xs ys = take (length (commonprefix xs ys)) xs"
  by (induction xs ys rule: commonprefix.induct) simp_all

lemma commonprefix_take_right: "commonprefix xs ys = take (length (commonprefix xs ys)) ys"
  by (induction xs ys rule: commonprefix.induct) simp_all

lemma length_commonprefix_le: "length (commonprefix xs ys) \<le> length xs"
  by (induction xs ys rule: commonprefix.induct) simp_all

lemma commonprefix_same: "commonprefix xs xs = xs"
  by (induction xs) simp_all

lemma relpath_lists_same: "relpath_lists r r = Rel [''.'']"
  by (simp add: relpath_lists_def commonprefix_same)

lemma relpath_join_roundtrip:
  assumes r: "list_all plain r" and pl: "list_all plain pl"
  shows "relpath cwd (join (Abs r) (relpath_lists pl r)) (Abs r) = Some (relpath_lists pl r)"
proof -
  define i where "i = length (commonprefix r pl)"
  define rl where "rl = replicate (length r - i) ''..'' @ drop i pl"
  have ile: "i \<le> length r" by (simp add: i_def length_commonprefix_le)
  have tk: "take i r = take i pl"
    using commonprefix_take_left[of r pl] commonprefix_take_right[of r pl] by (simp add: i_def)
  have nr: "normpath_abs r = r" using r by (rule normpath_abs_id)
  show ?thesis
  proof (cases "rl = []")
    case True
    then have k: "relpath_lists pl r = Rel [''.'']"
      by (simp add: relpath_lists_def Let_def i_def rl_def)
    have "normpath_abs (r @ [''.'']) = r"
      using nr by (simp add: normpath_abs_def normpath_step_def)
    then show ?thesis by (simp add: k relpath_def nr relpath_lists_same)
  next
    case False
    then have k: "relpath_lists pl r = Rel rl"
      by (simp add: relpath_lists_def Let_def i_def rl_def)
    have dp: "list_all plain (drop i pl)" using pl by (auto simp: list_all_iff dest: in_set_dropD)
    have "normpath_abs (r @ rl) =
        foldl normpath_step (foldl normpath_step (normpath_abs r) (replicate (length r - i) ''..''))
          (drop i pl)"
      by (simp add: normpath_abs_def rl_def)
    also have "\<dots> = take i r @ drop i pl"
      using ile by (simp add: nr normpath_foldl_ups normpath_foldl_id[OF dp])
    also have "\<dots> = pl" by (simp add: tk)
    finally have "normpath_abs (r @ rl) = pl" .
    then show ?thesis using False by (simp add: k relpath_def nr)
  qed
qed


lemma update_fresh: "k \<notin> fst ` set al \<Longrightarrow> AList.update k v al = al @ [(k, v)]"
  by (induction al) auto

lemma relpath_tracked:
  assumes "list_all plain (repo_path b)" and "relpath (work_dir b) k (Abs (repo_path b)) = Some r"
  shows "tracked_key b r"
proof -
  have "r = relpath_lists (abspath (work_dir b) k) (repo_path b)"
    using assms by (simp add: relpath_def normpath_abs_id split: if_splits)
  moreover have "list_all plain (abspath (work_dir b) k)"
    by (cases k) (simp_all add: normpath_abs_plain)
  ultimately show ?thesis unfolding tracked_key_def by blast
qed

lemma load_files_good:
  assumes "list_all plain (repo_path b)"
  shows "load_files b kvs acc = Some fs \<Longrightarrow> distinct (map fst acc) \<Longrightarrow>
     \<forall>k \<in> fst ` set acc. tracked_key b k \<Longrightarrow>
     distinct (map fst fs) \<and> (\<forall>k \<in> fst ` set fs. tracked_key b k)"
proof (induction kvs arbitrary: acc)
  case Nil
  then show ?case by simp
next
  case (Cons kv kvs)
  obtain k v where kv: "kv = (k, v)" by (cases kv)
  from Cons.prems(1) obtain r where r: "relpath (work_dir b) k (Abs (repo_path b)) = Some r"
    and l: "load_files b kvs (AList.update r v acc) = Some fs"
    by (auto simp: kv split: option.splits)
  have t: "tracked_key b r" using relpath_tracked[OF assms r] .
  have d: "distinct (map fst (AList.update r v acc))" using Cons.prems(2) by (rule distinct_update)
  have a: "\<forall>k \<in> fst ` set (AList.update r v acc). tracked_key b k"
    using Cons.prems(3) t by (auto simp: dom_update)
  from Cons.IH[OF l d a] show ?case .
qed

lemma good_load_doc:
  assumes "list_all plain (repo_path b)"
  shows "good_cache b (load_doc b doc)"
proof (cases doc)
  case (LegacyDoc fs)
  show ?thesis
  proof (cases "load_files b fs []")
    case None
    then show ?thesis by (simp add: load_doc_def LegacyDoc good_cache_def empty_cache_def)
  next
    case (Some d)
    from load_files_good[OF assms Some] have "distinct (map fst d) \<and> (\<forall>k \<in> fst ` set d. tracked_key b k)"
      by simp
    then show ?thesis by (simp add: load_doc_def LegacyDoc Some good_cache_def empty_cache_def)
  qed
next
  case (CacheDoc fs del)
  show ?thesis
  proof (cases "load_files b fs []")
    case None
    then show ?thesis by (simp add: load_doc_def CacheDoc good_cache_def empty_cache_def)
  next
    case (Some d)
    from load_files_good[OF assms Some] have "distinct (map fst d) \<and> (\<forall>k \<in> fst ` set d. tracked_key b k)"
      by simp
    then show ?thesis by (simp add: load_doc_def CacheDoc Some good_cache_def)
  qed
qed

lemma good_load_cache:
  assumes "list_all plain (repo_path b)"
  shows "good_cache b (load_cache b d)"
  using good_load_doc[OF assms]
  by (simp add: load_cache_def good_cache_def empty_cache_def split: option.splits)

lemma tracked_key_rel: "tracked_key b k \<Longrightarrow> \<exists>cs. k = Rel cs"
  unfolding tracked_key_def using relpath_lists_rel by blast

lemma save_files_map:
  "distinct (map fst fs) \<Longrightarrow> \<forall>k \<in> fst ` set fs. \<exists>cs. k = Rel cs \<Longrightarrow>
   join (Abs (repo_path b)) ` fst ` set fs \<inter> fst ` set acc = {} \<Longrightarrow>
   save_files b fs acc = acc @ map (\<lambda>(k, v). (join (Abs (repo_path b)) k, v)) fs"
proof (induction b fs acc rule: save_files.induct)
  case (1 b acc)
  then show ?case by simp
next
  case (2 b k v kvs acc)
  let ?j = "join (Abs (repo_path b))"
  have fresh: "?j k \<notin> fst ` set acc" using 2(4) by auto
  have upd: "AList.update (?j k) v acc = acc @ [(?j k, v)]" using fresh by (rule update_fresh)
  have d: "distinct (map fst kvs)" using 2(2) by simp
  have rl: "\<forall>k \<in> fst ` set kvs. \<exists>cs. k = Rel cs" using 2(3) by simp
  have knot: "k \<notin> fst ` set kvs" using 2(2) by (simp add: image_iff) 
  obtain cs where k: "k = Rel cs" using 2(3) by auto
  have inj: "?j k \<notin> ?j ` fst ` set kvs"
  proof
    assume "?j k \<in> ?j ` fst ` set kvs"
    then obtain q where q: "q \<in> fst ` set kvs" "?j k = ?j q" by blast
    from rl q(1) obtain ds where "q = Rel ds" by blast
    with q(2) k have "k = q" by simp
    with q(1) knot show False by simp
  qed
  have disj: "?j ` fst ` set kvs \<inter> fst ` set (AList.update (?j k) v acc) = {}"
    using 2(4) inj by (auto simp: dom_update)
  from 2(1)[OF d rl disj] show ?case by (simp add: upd)
qed

lemma load_files_map:
  assumes pr: "list_all plain (repo_path b)"
  shows "distinct (map fst fs) \<Longrightarrow> \<forall>k \<in> fst ` set fs. tracked_key b k \<Longrightarrow>
   fst ` set fs \<inter> fst ` set acc = {} \<Longrightarrow>
   load_files b (map (\<lambda>(k, v). (join (Abs (repo_path b)) k, v)) fs) acc = Some (acc @ fs)"
proof (induction fs arbitrary: acc)
  case Nil
  then show ?case by simp
next
  case (Cons kv fs)
  obtain k v where kv: "kv = (k, v)" by (cases kv)
  have "tracked_key b k" using Cons.prems(2) kv by simp
  then obtain pl where pl: "list_all plain pl" "k = relpath_lists pl (repo_path b)"
    unfolding tracked_key_def by blast
  have rt: "relpath (work_dir b) (join (Abs (repo_path b)) k) (Abs (repo_path b)) = Some k"
    using relpath_join_roundtrip[OF pr pl(1)] pl(2) by simp
  have fresh: "k \<notin> fst ` set acc" using Cons.prems(3) kv by auto
  have upd: "AList.update k v acc = acc @ [(k, v)]" using fresh by (rule update_fresh)
  have d: "distinct (map fst fs)" using Cons.prems(1) by simp
  have t: "\<forall>k \<in> fst ` set fs. tracked_key b k" using Cons.prems(2) by simp
  have knot: "k \<notin> fst ` set fs" using Cons.prems(1) kv by (simp add: image_iff)
  have disj: "fst ` set fs \<inter> fst ` set (acc @ [(k, v)]) = {}"
    using Cons.prems(3) knot by auto
  from Cons.IH[OF d t disj] show ?case by (simp add: kv rt upd)
qed

lemma load_doc_abs_cache:
  assumes "list_all plain (repo_path b)" and "good_cache b c"
  shows "load_doc b (abs_cache b c) = c"
proof -
  have d: "distinct (map fst (files c))" and t: "\<forall>k \<in> fst ` set (files c). tracked_key b k"
    and dd: "distinct (deleted_files c)"
    using assms(2) by (simp_all add: good_cache_def)
  have rl: "\<forall>k \<in> fst ` set (files c). \<exists>cs. k = Rel cs" using t tracked_key_rel by blast
  have s: "save_files b (files c) [] = map (\<lambda>(k, v). (join (Abs (repo_path b)) k, v)) (files c)"
    using save_files_map[OF d rl, of b "[]"] by simp
  have l: "load_files b (map (\<lambda>(k, v). (join (Abs (repo_path b)) k, v)) (files c)) [] = Some (files c)"
    using load_files_map[OF assms(1) d t, of "[]"] by simp
  show ?thesis using dd by (simp add: load_doc_def abs_cache_def s l)
qed



lemma good_saved_gcf:
  assumes "list_all plain (repo_path b)"
  shows "good_cache b (saved (get_changed_files b e d))"
  using good_load_cache[OF assms, of d]
  by (simp add: get_changed_files_def Let_def good_cache_def distinct_set_update)


lemma reload_gcf:
  assumes "list_all plain (repo_path b)" and "writable e"
  shows "load_cache b (disk_after (get_changed_files b e d)) = saved (get_changed_files b e d)"
  using assms(2) load_doc_abs_cache[OF assms(1) good_saved_gcf[OF assms(1)]]
  by (simp add: disk_after_gcf load_after_save)


lemma update_files_frame:
  "\<forall>p \<in> set ps. relpath (work_dir b) p (Abs (repo_path b)) \<noteq> Some k \<Longrightarrow>
   map_of (update_files b info ps fs) k = map_of fs k"
proof (induction ps arbitrary: fs)
  case Nil
  then show ?case by simp
next
  case (Cons p ps)
  from Cons.prems have ne: "relpath (work_dir b) p (Abs (repo_path b)) \<noteq> Some k"
    and rest: "\<forall>p \<in> set ps. relpath (work_dir b) p (Abs (repo_path b)) \<noteq> Some k" by simp_all
  show ?case using Cons.IH[OF rest] ne
    by (auto simp: update_conv' split: option.splits)
qed










text \<open>
  Claim C5: over every sequence of tracker calls (change classifications and cache updates,
  each in its own environment), a path that is in the \<open>deleted_files\<close> set of the
  loaded cache is in no later deleted-files report, whether or not the file is created
  again. A cached path is reported as deleted exactly when it is a key of the cache, absent
  from the current listing and not yet in \<open>deleted_files\<close>; when the cache file can
  be written, a reported deletion is in the \<open>deleted_files\<close> set that the next call
  loads.
\<close>

theorem recorded_deletion_never_reported_again:
  "(p \<in> set (deleted_files (load_cache b d))
      \<longrightarrow> (\<forall>r \<in> set (deleted_reports b d ops). p \<notin> set r))
   \<and> (q \<in> set (deleted_report (get_changed_files b e d')) \<longleftrightarrow>
        q \<in> fst ` set (files (load_cache b d'))
        \<and> q \<notin> set (get_all_code_files b (walk e))
        \<and> q \<notin> set (deleted_files (load_cache b d')))
   \<and> (writable e \<and> q \<in> set (deleted_report (get_changed_files b e d'))
        \<longrightarrow> q \<in> set (deleted_files (load_cache b (disk_after (get_changed_files b e d')))))"
proof -
  have one: "p \<in> set (deleted_files (load_cache b d))
      \<longrightarrow> (\<forall>r \<in> set (deleted_reports b d ops). p \<notin> set r)"
    using recorded_never_reported by blast
  have two: "q \<in> set (deleted_report (get_changed_files b e d')) \<longleftrightarrow>
        q \<in> fst ` set (files (load_cache b d'))
        \<and> q \<notin> set (get_all_code_files b (walk e))
        \<and> q \<notin> set (deleted_files (load_cache b d'))"
    by (auto simp: deleted_report_gcf newly_deleted_def)
  have three: "writable e \<and> q \<in> set (deleted_report (get_changed_files b e d'))
        \<longrightarrow> q \<in> set (deleted_files (load_cache b (disk_after (get_changed_files b e d'))))"
    by (simp add: disk_after_gcf load_after_save deleted_load_abs_cache saved_deleted_gcf)
  from one two three show ?thesis by blast
qed

text \<open>Witness for claim C5: \<open>b.py\<close> is reported once in the small repository and
  in neither of the two later classifications.\<close>

theorem recorded_deletion_never_reported_again_witness:
  "Rel [''b.py''] \<in> set (deleted_report (get_changed_files ex_builder ex_env ex_disk))
   \<and> writable ex_env
   \<and> Rel [''b.py''] \<in> set (deleted_files (load_cache ex_builder ex_disk_after))
   \<and> length (deleted_reports ex_builder ex_disk_after ex_ops) = 2
   \<and> Rel [''b.py''] \<notin> set (concat (deleted_reports ex_builder ex_disk_after ex_ops))"
proof -
  have h1: "Rel [''b.py''] \<in> set (deleted_report (get_changed_files ex_builder ex_env ex_disk))"
    by code_simp
  have h2: "writable ex_env" by code_simp
  have len: "length (deleted_reports ex_builder ex_disk_after ex_ops) = 2" by code_simp
  note t = recorded_deletion_never_reported_again[of "Rel [''b.py'']" ex_builder ex_disk_after
      ex_ops "Rel [''b.py'']" ex_env ex_disk]
  from t h1 h2 have h3: "Rel [''b.py''] \<in> set (deleted_files (load_cache ex_builder ex_disk_after))"
    unfolding ex_disk_after_def by blast
  with t have "\<forall>r \<in> set (deleted_reports ex_builder ex_disk_after ex_ops). Rel [''b.py''] \<notin> set r"
    by blast
  then have "Rel [''b.py''] \<notin> set (concat (deleted_reports ex_builder ex_disk_after ex_ops))"
    by auto
  with h1 h2 h3 len show ?thesis by blast
qed





text \<open>
  Claim C10: the cache that \<open>get_changed_files\<close> saves has the \<open>files\<close>
  mapping of the loaded cache, and its \<open>deleted_files\<close> set is the loaded one
  together with the newly reported deletions; that cache is what is written, and loading
  it again gives the same \<open>files\<close> mapping. \<open>update_cache\<close> writes the loaded
  cache with \<open>files\<close> changed by \<open>update_files\<close> only, which leaves every key
  that is not the relative path of a processed file as it was.
\<close>

theorem classification_keeps_file_states:
  "files (saved (get_changed_files b e d)) = files (load_cache b d)
   \<and> set (deleted_files (saved (get_changed_files b e d))) =
        set (deleted_files (load_cache b d)) \<union> set (deleted_report (get_changed_files b e d))
   \<and> disk_after (get_changed_files b e d) =
        save_cache b (writable e) (saved (get_changed_files b e d)) d
   \<and> (list_all plain (repo_path b) \<and> writable e \<longrightarrow>
        files (load_cache b (disk_after (get_changed_files b e d))) = files (load_cache b d))
   \<and> update_cache b e ps d =
        save_cache b (writable e)
          ((load_cache b d)\<lparr>files := update_files b (file_info e) ps (files (load_cache b d))\<rparr>) d
   \<and> ((\<forall>p \<in> set ps. relpath (work_dir b) p (Abs (repo_path b)) \<noteq> Some k) \<longrightarrow>
        map_of (update_files b (file_info e) ps (files (load_cache b d))) k
          = map_of (files (load_cache b d)) k)"
proof -
  have four: "list_all plain (repo_path b) \<and> writable e \<longrightarrow>
        files (load_cache b (disk_after (get_changed_files b e d))) = files (load_cache b d)"
    using reload_gcf[of b e d] by (simp add: saved_files_gcf)
  have five: "update_cache b e ps d =
        save_cache b (writable e)
          ((load_cache b d)\<lparr>files := update_files b (file_info e) ps (files (load_cache b d))\<rparr>) d"
    by (simp add: update_cache_def Let_def)
  have six: "(\<forall>p \<in> set ps. relpath (work_dir b) p (Abs (repo_path b)) \<noteq> Some k) \<longrightarrow>
        map_of (update_files b (file_info e) ps (files (load_cache b d))) k
          = map_of (files (load_cache b d)) k"
    using update_files_frame by blast
  from saved_files_gcf saved_deleted_gcf disk_after_gcf four five six show ?thesis by blast
qed

text \<open>Witness for claim C10 in the small repository.\<close>

theorem classification_keeps_file_states_witness:
  "list_all plain (repo_path ex_builder) \<and> writable ex_env
   \<and> files (load_cache ex_builder (disk_after (get_changed_files ex_builder ex_env ex_disk)))
        = files (load_cache ex_builder ex_disk)
   \<and> relpath (work_dir ex_builder) (Abs [''repo'', ''a.py'']) (Abs (repo_path ex_builder))
        \<noteq> Some (Rel [''b.py''])
   \<and> map_of (update_files ex_builder (file_info ex_env) [Abs [''repo'', ''a.py'']]
               (files (load_cache ex_builder ex_disk))) (Rel [''b.py''])
        = map_of (files (load_cache ex_builder ex_disk)) (Rel [''b.py''])"
proof -
  have h1: "list_all plain (repo_path ex_builder)" by code_simp
  have h2: "writable ex_env" by code_simp
  have h3: "relpath (work_dir ex_builder) (Abs [''repo'', ''a.py'']) (Abs (repo_path ex_builder))
        \<noteq> Some (Rel [''b.py''])" by code_simp
  then have h4: "\<forall>p \<in> set [Abs [''repo'', ''a.py'']].
      relpath (work_dir ex_builder) p (Abs (repo_path ex_builder)) \<noteq> Some (Rel [''b.py''])"
    by simp
  note t = classification_keeps_file_states[of ex_builder ex_env ex_disk
      "[Abs [''repo'', ''a.py'']]" "Rel [''b.py'']"]
  from t h1 h2 have a: "files (load_cache ex_builder (disk_after (get_changed_files ex_builder ex_env ex_disk)))
        = files (load_cache ex_builder ex_disk)" by blast
  from t h4 have b: "map_of (update_files ex_builder (file_info ex_env) [Abs [''repo'', ''a.py'']]
               (files (load_cache ex_builder ex_disk))) (Rel [''b.py''])
        = map_of (files (load_cache ex_builder ex_disk)) (Rel [''b.py''])" by blast
  from h1 h2 h3 a b show ?thesis by blast
qed

section \<open>Properties of the writer\<close>

lemma build_records_enumerate:
  "build_records lib self fp info i code_chunks =
     map (\<lambda>(j, ch). chunk_record lib self fp info j ch)
         (filter (\<lambda>(j, ch). strip (fst ch) \<noteq> []) (enumerate i code_chunks))"
  by (induction code_chunks arbitrary: i) simp_all

lemma chunk_record_index: "r_chunk_index (chunk_record lib self fp info i ch) = i"
  by (simp add: chunk_record_def Let_def)

lemma chunk_record_id:
  "r_id (chunk_record lib self fp info i ch) =
     md5_hexdigest lib (fp @ '':'' @ info_filename info @ '':''
       @ r_type (chunk_record lib self fp info i ch) @ '':'' @ str_nat i)"
  by (simp add: chunk_record_def Let_def generate_uid_def)

lemma build_records_member:
  assumes "r \<in> set (build_records lib self fp info 0 code_chunks)"
  shows "r_chunk_index r < length code_chunks
     \<and> strip (fst (code_chunks ! r_chunk_index r)) \<noteq> []
     \<and> r = chunk_record lib self fp info (r_chunk_index r) (code_chunks ! r_chunk_index r)"
proof -
  from assms obtain j ch where jc: "(j, ch) \<in> set (enumerate 0 code_chunks)"
    and nb: "strip (fst ch) \<noteq> []" and r: "r = chunk_record lib self fp info j ch"
    unfolding build_records_enumerate by auto
  from jc have "j < length code_chunks" "ch = code_chunks ! j"
    by (auto simp: in_set_enumerate_eq)
  with nb r show ?thesis by (simp add: chunk_record_index)
qed

lemma build_records_complete:
  assumes "i < length code_chunks" and "strip (fst (code_chunks ! i)) \<noteq> []"
  shows "chunk_record lib self fp info i (code_chunks ! i)
     \<in> set (build_records lib self fp info 0 code_chunks)"
proof -
  have "(i, code_chunks ! i) \<in> set (enumerate 0 code_chunks)"
    using assms(1) by (simp add: in_set_enumerate_eq)
  with assms(2) show ?thesis unfolding build_records_enumerate by force
qed

lemma process_file_records:
  assumes "read_file fp = Some c"
    and "encodable lib fp"
    and "chunk_code_by_language lib eng (extract_code_content lib c)
           (info_language (extract_code_info lib c)) = Inr code_chunks"
    and "print_processed con fp
           (length (build_records lib self fp (extract_code_info lib c) 0 code_chunks))"
  shows "process_file lib eng con read_file self fp =
     Inr (build_records lib self fp (extract_code_info lib c) 0 code_chunks)"
  using assms by (simp add: process_file_def try_process_file_def Let_def)

lemma try_process_file_result:
  assumes "try_process_file lib eng con read_file self fp = Inr rs"
  shows "\<exists>c code_chunks. read_file fp = Some c
     \<and> chunk_code_by_language lib eng (extract_code_content lib c)
          (info_language (extract_code_info lib c)) = Inr code_chunks
     \<and> rs = build_records lib self fp (extract_code_info lib c) 0 code_chunks"
  using assms
  by (auto simp: try_process_file_def Let_def split: option.splits sum.splits if_splits)

lemma process_file_result:
  assumes "process_file lib eng con read_file self fp = Inr rs"
  shows "rs = [] \<or> (\<exists>c code_chunks. read_file fp = Some c
     \<and> chunk_code_by_language lib eng (extract_code_content lib c)
          (info_language (extract_code_info lib c)) = Inr code_chunks
     \<and> rs = build_records lib self fp (extract_code_info lib c) 0 code_chunks)"
proof (cases "try_process_file lib eng con read_file self fp")
  case (Inl e)
  with assms show ?thesis by (simp add: process_file_def split: if_splits)
next
  case (Inr result)
  with assms have "result = rs" by (simp add: process_file_def)
  with Inr try_process_file_result show ?thesis by blast
qed

lemma process_file_failed:
  assumes "try_process_file lib eng con read_file self f = Inl e"
  shows "process_file lib eng con read_file self f
     = (if print_error con f e then Inr [] else Inl PrintError)"
  using assms by (simp add: process_file_def)

lemma unreadable_file:
  "read_file f = None \<Longrightarrow> try_process_file lib eng con read_file self f = Inl FileError"
  by (simp add: try_process_file_def)

lemma unsupported_language:
  "lang \<notin> set supported_languages \<Longrightarrow> chunk_code_by_language lib eng code lang = Inl (ValueError lang)"
  by (simp add: chunk_code_by_language_def supported_languages_def)

lemma unsupported_file:
  assumes "read_file f = Some c" and "encodable lib f"
    and "info_language (extract_code_info lib c) \<notin> set supported_languages"
  shows "try_process_file lib eng con read_file self f
     = Inl (ValueError (info_language (extract_code_info lib c)))"
  using assms(1,2) unsupported_language[OF assms(3)]
  by (simp add: try_process_file_def Let_def)

lemma process_files_append:
  "process_files pf fs acc = map_sum id ((@) acc) (process_files pf fs [])"
proof (induction fs arbitrary: acc)
  case Nil
  then show ?case by simp
next
  case (Cons f fs)
  show ?case
  proof (cases "pf f")
    case (Inl e)
    then show ?thesis by simp
  next
    case (Inr chunks)
    have "process_files pf (f # fs) acc = process_files pf fs (acc @ chunks)"
      using Inr by simp
    also have "\<dots> = map_sum id ((@) (acc @ chunks)) (process_files pf fs [])"
      by (rule Cons.IH)
    also have "\<dots> = map_sum id ((@) acc) (map_sum id ((@) chunks) (process_files pf fs []))"
      by (cases "process_files pf fs []") simp_all
    also have "map_sum id ((@) chunks) (process_files pf fs []) = process_files pf fs chunks"
      by (rule Cons.IH[symmetric])
    also have "process_files pf fs chunks = process_files pf (f # fs) []"
      using Inr by simp
    finally show ?thesis .
  qed
qed

text \<open>When the handler's message can be printed, a failing file gives the empty list and
  the loop goes on with the files after it.\<close>

lemma reported_failure_skipped:
  assumes "try_process_file lib eng con read_file self f = Inl e" and "print_error con f e"
  shows "process_files (process_file lib eng con read_file self) (f # rest) acc
     = process_files (process_file lib eng con read_file self) rest acc"
  using assms by (simp add: process_file_def)

text \<open>When it cannot, the loop ends there, whatever the files before and after it are.\<close>

lemma process_files_stops:
  assumes "pf f = Inl e" and "process_files pf fs1 acc = Inr acc'"
  shows "process_files pf (fs1 @ f # fs2) acc = Inl e"
  using assms
proof (induction fs1 arbitrary: acc)
  case Nil
  then show ?case by simp
next
  case (Cons g fs1)
  then show ?case by (cases "pf g") simp_all
qed


text \<open>
  Claim C9: for every chunk list a language extractor returns, the writer builds one
  record for each chunk whose text has a character that is not whitespace, and none for a
  chunk whose text is empty or whitespace only. The \<open>chunk_index\<close> of a record, and
  the index at the end of the key that is hashed into its identity, is the position of the
  chunk in the whole extractor output, dropped entries included. These records are what
  \<open>process_file\<close> returns for a file it reads, hashes, chunks and reports; and
  whatever \<open>process_file\<close> returns is the empty list or the records built in this
  way from the extractor output for the file.
\<close>

theorem blank_chunks_dropped_positions_kept:
  "build_records lib self fp info 0 code_chunks =
      map (\<lambda>(i, ch). chunk_record lib self fp info i ch)
          (filter (\<lambda>(i, ch). strip (fst ch) \<noteq> []) (enumerate 0 code_chunks))
   \<and> (\<forall>r \<in> set (build_records lib self fp info 0 code_chunks).
         r_chunk_index r < length code_chunks
         \<and> strip (fst (code_chunks ! r_chunk_index r)) \<noteq> []
         \<and> r = chunk_record lib self fp info (r_chunk_index r) (code_chunks ! r_chunk_index r)
         \<and> r_id r = md5_hexdigest lib (fp @ '':'' @ info_filename info @ '':'' @ r_type r
                        @ '':'' @ str_nat (r_chunk_index r)))
   \<and> (i < length code_chunks \<and> strip (fst (code_chunks ! i)) \<noteq> [] \<longrightarrow>
         chunk_record lib self fp info i (code_chunks ! i)
           \<in> set (build_records lib self fp info 0 code_chunks))
   \<and> (read_file fp = Some c \<and> encodable lib fp
        \<and> chunk_code_by_language lib eng (extract_code_content lib c)
             (info_language (extract_code_info lib c)) = Inr code_chunks
        \<and> print_processed con fp
             (length (build_records lib self fp (extract_code_info lib c) 0 code_chunks)) \<longrightarrow>
         process_file lib eng con read_file self fp =
           Inr (build_records lib self fp (extract_code_info lib c) 0 code_chunks))
   \<and> (process_file lib eng con read_file self fp = Inr rs \<longrightarrow>
         rs = [] \<or> (\<exists>c' chunks'. read_file fp = Some c'
           \<and> chunk_code_by_language lib eng (extract_code_content lib c')
                (info_language (extract_code_info lib c')) = Inr chunks'
           \<and> rs = build_records lib self fp (extract_code_info lib c') 0 chunks'))"
proof -
  have two: "\<forall>r \<in> set (build_records lib self fp info 0 code_chunks).
         r_chunk_index r < length code_chunks
         \<and> strip (fst (code_chunks ! r_chunk_index r)) \<noteq> []
         \<and> r = chunk_record lib self fp info (r_chunk_index r) (code_chunks ! r_chunk_index r)
         \<and> r_id r = md5_hexdigest lib (fp @ '':'' @ info_filename info @ '':'' @ r_type r
                        @ '':'' @ str_nat (r_chunk_index r))"
  proof
    fix r assume r: "r \<in> set (build_records lib self fp info 0 code_chunks)"
    note m = build_records_member[OF r]
    from m have "r = chunk_record lib self fp info (r_chunk_index r) (code_chunks ! r_chunk_index r)"
      by blast
    then have "r_id r = md5_hexdigest lib (fp @ '':'' @ info_filename info @ '':'' @ r_type r
                        @ '':'' @ str_nat (r_chunk_index r))"
      using chunk_record_id by metis
    with m show "r_chunk_index r < length code_chunks
         \<and> strip (fst (code_chunks ! r_chunk_index r)) \<noteq> []
         \<and> r = chunk_record lib self fp info (r_chunk_index r) (code_chunks ! r_chunk_index r)
         \<and> r_id r = md5_hexdigest lib (fp @ '':'' @ info_filename info @ '':'' @ r_type r
                        @ '':'' @ str_nat (r_chunk_index r))" by blast
  qed
  have one: "build_records lib self fp info 0 code_chunks =
      map (\<lambda>(i, ch). chunk_record lib self fp info i ch)
          (filter (\<lambda>(i, ch). strip (fst ch) \<noteq> []) (enumerate 0 code_chunks))"
    by (rule build_records_enumerate)
  have three: "i < length code_chunks \<and> strip (fst (code_chunks ! i)) \<noteq> [] \<longrightarrow>
         chunk_record lib self fp info i (code_chunks ! i)
           \<in> set (build_records lib self fp info 0 code_chunks)"
    using build_records_complete by blast
  have four: "read_file fp = Some c \<and> encodable lib fp
        \<and> chunk_code_by_language lib eng (extract_code_content lib c)
             (info_language (extract_code_info lib c)) = Inr code_chunks
        \<and> print_processed con fp
             (length (build_records lib self fp (extract_code_info lib c) 0 code_chunks)) \<longrightarrow>
         process_file lib eng con read_file self fp =
           Inr (build_records lib self fp (extract_code_info lib c) 0 code_chunks)"
    using process_file_records by blast
  have five: "process_file lib eng con read_file self fp = Inr rs \<longrightarrow>
         rs = [] \<or> (\<exists>c' chunks'. read_file fp = Some c'
           \<and> chunk_code_by_language lib eng (extract_code_content lib c')
                (info_language (extract_code_info lib c')) = Inr chunks'
           \<and> rs = build_records lib self fp (extract_code_info lib c') 0 chunks')"
    using process_file_result by blast
  from one two three four five show ?thesis by (intro conjI)
qed

text \<open>Witness for claim C9: three chunks, the second blank; the records carry the
  indices 0 and 2.\<close>

theorem blank_chunks_dropped_positions_kept_witness:
  "ex_read ''d/k.md'' = Some ''<k.kt>''
   \<and> encodable ex_lib ''d/k.md''
   \<and> chunk_code_by_language ex_lib ex_engine (extract_code_content ex_lib ''<k.kt>'')
        (info_language (extract_code_info ex_lib ''<k.kt>'')) = Inr ex_blank_chunks
   \<and> print_processed ex_console ''d/k.md''
        (length (build_records ex_lib ex_chunker ''d/k.md'' (extract_code_info ex_lib ''<k.kt>'') 0
           ex_blank_chunks))
   \<and> map fst ex_blank_chunks = [''a'', ''  '', ''b'']
   \<and> map_sum id (map r_chunk_index)
        (process_file ex_lib ex_engine ex_console ex_read ex_chunker ''d/k.md'') = Inr [0, 2]
   \<and> map_sum id (map r_id)
        (process_file ex_lib ex_engine ex_console ex_read ex_chunker ''d/k.md'')
        = Inr [''md5(d/k.md:k.kt:class:0)'', ''md5(d/k.md:k.kt:class:2)'']"
proof -
  have h1: "ex_read ''d/k.md'' = Some ''<k.kt>''" by code_simp
  have h1': "encodable ex_lib ''d/k.md''" by code_simp
  have h2: "chunk_code_by_language ex_lib ex_engine (extract_code_content ex_lib ''<k.kt>'')
        (info_language (extract_code_info ex_lib ''<k.kt>'')) = Inr ex_blank_chunks" by code_simp
  have h2': "print_processed ex_console ''d/k.md''
        (length (build_records ex_lib ex_chunker ''d/k.md'' (extract_code_info ex_lib ''<k.kt>'') 0
           ex_blank_chunks))" by code_simp
  have h3: "map fst ex_blank_chunks = [''a'', ''  '', ''b'']" by code_simp
  note t = blank_chunks_dropped_positions_kept[of ex_lib ex_chunker "''d/k.md''"
      "extract_code_info ex_lib ''<k.kt>''" ex_blank_chunks 0 ex_read "''<k.kt>''" ex_engine
      ex_console]
  from t h1 h1' h2 h2'
  have p: "process_file ex_lib ex_engine ex_console ex_read ex_chunker ''d/k.md'' =
      Inr (build_records ex_lib ex_chunker ''d/k.md'' (extract_code_info ex_lib ''<k.kt>'') 0
             ex_blank_chunks)"
    by blast
  have e1: "map r_chunk_index (build_records ex_lib ex_chunker ''d/k.md''
      (extract_code_info ex_lib ''<k.kt>'') 0 ex_blank_chunks) = [0, 2]" by code_simp
  have e2: "map r_id (build_records ex_lib ex_chunker ''d/k.md''
      (extract_code_info ex_lib ''<k.kt>'') 0 ex_blank_chunks)
        = [''md5(d/k.md:k.kt:class:0)'', ''md5(d/k.md:k.kt:class:2)'']" by code_simp
  from h1 h1' h2 h2' h3 e1 e2 show ?thesis unfolding p by simp
qed

text \<open>
  Claim C7 at a concrete input: the directory \<open>d\<close> holds a file whose name has the
  byte 0xFF and the file \<open>f.md\<close>. For the first file the digest of the path raises in
  \<open>process_file\<close>; the handler's \<open>print\<close> of the same path raises in its
  turn, outside any \<open>try\<close>, and the exception leaves \<open>process_file\<close>,
  \<open>process_directory\<close> and \<open>run\<close>: the file \<open>f.md\<close>, which alone would give one
  chunk, is never processed and nothing is written.
\<close>

theorem unprintable_path_ends_batch:
  "curated_files [(''d'', [ex_bad_name, ''f.md''])] = [''d/'' @ ex_bad_name, ''d/f.md'']
   \<and> ex_read (''d/'' @ ex_bad_name) = Some ''<f.py>''
   \<and> try_process_file ex_strict_lib ex_engine ex_strict_console ex_read ex_chunker
        (''d/'' @ ex_bad_name) = Inl EncodeError
   \<and> print_error ex_strict_console (''d/'' @ ex_bad_name) EncodeError = False
   \<and> process_file ex_strict_lib ex_engine ex_strict_console ex_read ex_chunker
        (''d/'' @ ex_bad_name) = Inl PrintError
   \<and> map_sum id (map r_name)
        (process_file ex_strict_lib ex_engine ex_strict_console ex_read ex_chunker ''d/f.md'')
        = Inr [''f'']
   \<and> process_directory ex_strict_lib ex_engine ex_strict_console ex_read
        [(''d'', [ex_bad_name, ''f.md''])] ex_chunker = Inl PrintError
   \<and> run ex_strict_lib ex_engine ex_strict_console ex_read
        [(''d'', [ex_bad_name, ''f.md''])] ex_chunker = Inl PrintError"
  by code_simp

text \<open>
  Claim C2 at a concrete input: the store holds one record of \<open>d/e.md\<close>; the
  incremental run processes \<open>d/e.md\<close>, which now gives no chunk, and \<open>d/f.md\<close>.
  The stale record of \<open>d/e.md\<close> is written again, in front of the fresh records of
  \<open>d/f.md\<close>.
\<close>

theorem stale_records_survive_empty_reprocess:
  "existing_chunks ex_chunker = [(''d/e.md'', [ex_stale])]
   \<and> ''d/e.md'' \<in> set (curated_files [(''d'', [''e.md'', ''f.md''])])
   \<and> process_file ex_lib ex_engine ex_console ex_read ex_chunker ''d/e.md'' = Inr []
   \<and> run ex_lib ex_engine ex_console ex_read [(''d'', [''e.md'', ''f.md''])] ex_chunker
        = map_sum id ((#) ex_stale)
            (process_file ex_lib ex_engine ex_console ex_read ex_chunker ''d/f.md'')
   \<and> map_sum id (map r_source)
        (run ex_lib ex_engine ex_console ex_read [(''d'', [''e.md'', ''f.md''])] ex_chunker)
        = Inr [''d/e.md'', ''d/f.md'']
   \<and> r_source ex_stale = ''d/e.md''"
  by code_simp

section \<open>Repeated extraction\<close>

lemma extract_references_set:
  assumes "enumerates (set_order lib)" and "enumerates (set_order lib')"
  shows "set (extract_references lib' kw caps code) = set (extract_references lib kw caps code)"
  using assms by (simp add: extract_references_def enumerates_def)

lemma make_chunk_agree:
  "set refs' = set refs \<Longrightarrow>
   chunk_agree (make_chunk lang ty nm par imps refs n nn code)
               (make_chunk lang ty nm par imps refs' n nn code)"
  by (simp add: chunk_agree_def make_chunk_def)

lemma py_classes_agree:
  assumes "enumerates (set_order lib)" and "enumerates (set_order lib')"
  shows "list_all2 chunk_agree (py_classes lib t code imps caps) (py_classes lib' t code imps caps)"
proof (induction caps rule: induct_list012)
  case (3 c cn caps)
  then show ?case
    by (simp add: make_chunk_agree extract_references_set[OF assms])
qed simp_all

lemma py_functions_agree:
  assumes "enumerates (set_order lib)" and "enumerates (set_order lib')"
  shows "list_all2 chunk_agree (py_functions lib t code imps caps)
                               (py_functions lib' t code imps caps)"
proof (induction caps rule: induct_list012)
  case (3 c cn caps)
  then show ?case
    by (simp add: make_chunk_agree extract_references_set[OF assms])
qed simp_all

lemma py_methods_agree:
  assumes "enumerates (set_order lib)" and "enumerates (set_order lib')"
  shows "list_all2 chunk_agree (py_methods lib t code imps caps) (py_methods lib' t code imps caps)"
proof (induction caps rule: induct_list012)
  case (3 c cn caps)
  then show ?case
    by (simp add: make_chunk_agree extract_references_set[OF assms])
qed simp_all

lemma py_chunk_code_agree:
  assumes "enumerates (set_order lib)" and "enumerates (set_order lib')"
  shows "list_all2 chunk_agree (py_chunk_code lib t code) (py_chunk_code lib' t code)"
  unfolding py_chunk_code_def Let_def
  by (intro list_all2_appendI py_classes_agree[OF assms] py_functions_agree[OF assms]
        py_methods_agree[OF assms])

lemma java_chunk_agree:
  assumes "enumerates (set_order lib)" and "enumerates (set_order lib')"
  shows "chunk_agree (java_chunk lib t code imps ty n nn) (java_chunk lib' t code imps ty n nn)"
  unfolding java_chunk_def
  by (rule make_chunk_agree) (rule extract_references_set[OF assms])

lemma java_walk_agree:
  assumes "enumerates (set_order lib)" and "enumerates (set_order lib')"
  shows "list_all2 chunk_agree (java_walk lib t code imps caps) (java_walk lib' t code imps caps)"
proof (induction caps rule: induct_list012)
  case (3 cap nxt caps)
  then show ?case by (simp add: java_chunk_agree[OF assms])
qed simp_all

lemma java_chunk_code_agree:
  assumes "enumerates (set_order lib)" and "enumerates (set_order lib')"
    and "search_java_import lib' = search_java_import lib"
  shows "list_all2 chunk_agree (java_chunk_code lib t code) (java_chunk_code lib' t code)"
proof -
  have "java_extract_imports lib' t code = java_extract_imports lib t code"
    unfolding java_extract_imports_def assms(3) by (rule refl)
  then show ?thesis
    using java_walk_agree[OF assms(1,2)] by (simp add: java_chunk_code_def)
qed

lemma js_chunk_agree:
  assumes "enumerates (set_order lib)" and "enumerates (set_order lib')"
  shows "chunk_agree (js_chunk lib t code imps ty nm n) (js_chunk lib' t code imps ty nm n)"
  unfolding js_chunk_def
  by (rule make_chunk_agree) (rule extract_references_set[OF assms])

lemma js_walk_agree:
  assumes "enumerates (set_order lib)" and "enumerates (set_order lib')"
  shows "list_all2 chunk_agree (js_walk lib t code imps caps) (js_walk lib' t code imps caps)"
proof (induction caps rule: induct_list012)
  case 1
  then show ?case by simp
next
  case (2 cap)
  then show ?case by (simp add: js_chunk_agree[OF assms])
next
  case (3 cap nxt caps)
  then show ?case by (simp add: js_chunk_agree[OF assms])
qed

lemma js_imports_same:
  assumes "search_js_import_source lib' = search_js_import_source lib"
  shows "js_imports lib' code caps src = js_imports lib code caps src"
  by (induction caps arbitrary: src) (simp_all add: assms split: option.split)

lemma js_chunk_code_agree:
  assumes "enumerates (set_order lib)" and "enumerates (set_order lib')"
    and "search_js_import_source lib' = search_js_import_source lib"
  shows "list_all2 chunk_agree (js_chunk_code lib t code) (js_chunk_code lib' t code)"
  using js_walk_agree[OF assms(1,2)]
  by (simp add: js_chunk_code_def js_extract_imports_def js_imports_same[OF assms(3)])

lemma kt_chunks_agree:
  assumes "enumerates (set_order lib)" and "enumerates (set_order lib')"
  shows "list_all2 chunk_agree (kt_chunks lib t code imps cap) (kt_chunks lib' t code imps cap)"
  unfolding kt_chunks_def Let_def
  by (simp add: make_chunk_agree extract_references_set[OF assms] split: option.split)

lemma kt_chunk_code_agree:
  assumes "enumerates (set_order lib)" and "enumerates (set_order lib')"
    and "search_kotlin_import lib' = search_kotlin_import lib"
  shows "list_all2 chunk_agree (kt_chunk_code lib t code) (kt_chunk_code lib' t code)"
proof -
  have i: "kt_extract_imports lib' t code = kt_extract_imports lib t code"
    unfolding kt_extract_imports_def assms(3) by (rule refl)
  have "list_all2 chunk_agree (concat (map (kt_chunks lib t code imps) caps))
          (concat (map (kt_chunks lib' t code imps) caps))" for imps caps
    by (induction caps) (simp_all add: list_all2_appendI kt_chunks_agree[OF assms(1,2)])
  then show ?thesis by (simp add: kt_chunk_code_def i)
qed

lemma chunk_record_agree:
  assumes "chunk_agree ch ch'" and "md5_hexdigest lib' = md5_hexdigest lib"
  shows "same_but_references (chunk_record lib self fp info i ch)
                             (chunk_record lib' self fp info i ch')"
proof -
  from assms(1) have s: "snd ch' = (snd ch)\<lparr>references := references (snd ch')\<rparr>"
    and e: "set (references (snd ch')) = set (references (snd ch))"
    by (simp_all add: chunk_agree_def)
  have f: "content (snd ch') = content (snd ch)" "chunk_type (snd ch') = chunk_type (snd ch)"
    "name (snd ch') = name (snd ch)" "parent (snd ch') = parent (snd ch)"
    "start_line (snd ch') = start_line (snd ch)" "end_line (snd ch') = end_line (snd ch)"
    "chunk_imports (snd ch') = chunk_imports (snd ch)"
    by (subst s, simp)+
  show ?thesis
    using e by (simp add: same_but_references_def chunk_record_def Let_def generate_uid_def f assms(2))
qed

lemma build_records_agree:
  assumes "md5_hexdigest lib' = md5_hexdigest lib"
  shows "list_all2 chunk_agree cs cs' \<Longrightarrow>
     list_all2 same_but_references (build_records lib self fp info i cs)
                                   (build_records lib' self fp info i cs')"
proof (induction cs cs' arbitrary: i rule: list_all2_induct)
  case Nil
  then show ?case by simp
next
  case (Cons ch cs ch' cs')
  from Cons.hyps(1) have t: "fst ch' = fst ch" by (simp add: chunk_agree_def)
  show ?case
    using Cons.IH[of "Suc i"] chunk_record_agree[OF Cons.hyps(1) assms, of self fp info i]
    by (simp add: t)
qed


lemma same_but_references_ids:
  "list_all2 same_but_references rs rs' \<Longrightarrow> map r_id rs = map r_id rs'"
proof (induction rs rs' rule: list_all2_induct)
  case Nil
  then show ?case by simp
next
  case (Cons r rs r' rs')
  from Cons.hyps(1) have "r' = r\<lparr>r_references := r_references r'\<rparr>"
    by (simp add: same_but_references_def)
  then have "r_id r' = r_id r" by (metis chunk_data.select_convs(1) chunk_data.surjective chunk_data.update_convs(18))
  with Cons.IH show ?case by simp
qed

lemma run_chunker_agree:
  assumes "\<And>t. list_all2 chunk_agree (f t) (g t)"
  shows "rel_sum (=) (list_all2 chunk_agree) (run_chunker parsed f) (run_chunker parsed g)"
  using assms by (cases parsed) (simp_all add: run_chunker_def)

lemma chunk_code_agree:
  assumes "enumerates (set_order lib)" and "enumerates ord'"
  shows "rel_sum (=) (list_all2 chunk_agree) (chunk_code_by_language lib eng code lang)
           (chunk_code_by_language (lib\<lparr>set_order := ord'\<rparr>) eng code lang)"
proof -
  let ?lib' = "lib\<lparr>set_order := ord'\<rparr>"
  have e': "enumerates (set_order ?lib')" using assms(2) by simp
  have j: "search_java_import ?lib' = search_java_import lib" by simp
  have s: "search_js_import_source ?lib' = search_js_import_source lib" by simp
  have k: "search_kotlin_import ?lib' = search_kotlin_import lib" by simp
  have py: "rel_sum (=) (list_all2 chunk_agree)
      (run_chunker (parse_python eng code) (\<lambda>t. py_chunk_code lib t code))
      (run_chunker (parse_python eng code) (\<lambda>t. py_chunk_code ?lib' t code))"
    by (rule run_chunker_agree) (rule py_chunk_code_agree[OF assms(1) e'])
  have js: "rel_sum (=) (list_all2 chunk_agree)
      (run_chunker (parse_javascript eng code) (\<lambda>t. js_chunk_code lib t code))
      (run_chunker (parse_javascript eng code) (\<lambda>t. js_chunk_code ?lib' t code))"
    by (rule run_chunker_agree) (rule js_chunk_code_agree[OF assms(1) e' s])
  have java: "rel_sum (=) (list_all2 chunk_agree)
      (run_chunker (parse_java eng code) (\<lambda>t. java_chunk_code lib t code))
      (run_chunker (parse_java eng code) (\<lambda>t. java_chunk_code ?lib' t code))"
    by (rule run_chunker_agree) (rule java_chunk_code_agree[OF assms(1) e' j])
  have kt: "rel_sum (=) (list_all2 chunk_agree)
      (run_chunker (parse_kotlin eng code) (\<lambda>t. kt_chunk_code lib t code))
      (run_chunker (parse_kotlin eng code) (\<lambda>t. kt_chunk_code ?lib' t code))"
    by (rule run_chunker_agree) (rule kt_chunk_code_agree[OF assms(1) e' k])
  show ?thesis
    unfolding chunk_code_by_language_def using py js java kt by simp
qed

lemma process_file_agree:
  assumes "enumerates (set_order lib)" and "enumerates ord'"
  shows "rel_sum (=) (list_all2 same_but_references) (process_file lib eng con read_file self fp)
           (process_file (lib\<lparr>set_order := ord'\<rparr>) eng con read_file self fp)"
proof (cases "read_file fp")
  case None
  then show ?thesis
    by (simp add: process_file_def try_process_file_def)
next
  case (Some c)
  let ?lib' = "lib\<lparr>set_order := ord'\<rparr>"
  let ?info = "extract_code_info lib c"
  let ?code = "extract_code_content lib c"
  have i: "extract_code_info ?lib' c = ?info" by (simp add: extract_code_info_def)
  have k: "extract_code_content ?lib' c = ?code" by (simp add: extract_code_content_def)
  have m: "md5_hexdigest ?lib' = md5_hexdigest lib" by simp
  have n: "encodable ?lib' fp = encodable lib fp" by simp
  note a = chunk_code_agree[OF assms, of eng ?code "info_language ?info"]
  show ?thesis
  proof (cases "chunk_code_by_language lib eng ?code (info_language ?info)")
    case (Inl e)
    with a have "chunk_code_by_language ?lib' eng ?code (info_language ?info) = Inl e"
      by (cases "chunk_code_by_language ?lib' eng ?code (info_language ?info)") simp_all
    with Inl Some show ?thesis
      by (simp add: process_file_def try_process_file_def Let_def i k)
  next
    case (Inr cs)
    with a obtain cs' where b: "chunk_code_by_language ?lib' eng ?code (info_language ?info) = Inr cs'"
      and r: "list_all2 chunk_agree cs cs'"
      by (cases "chunk_code_by_language ?lib' eng ?code (info_language ?info)") simp_all
    note rr = build_records_agree[OF m r, of self fp ?info 0]
    from rr have l: "length (build_records ?lib' self fp ?info 0 cs')
        = length (build_records lib self fp ?info 0 cs)"
      by (simp add: list_all2_lengthD)
    show ?thesis
      using Some Inr b rr
      by (simp add: process_file_def try_process_file_def Let_def i k l)
  qed
qed

lemma same_but_references_result_ids:
  assumes "rel_sum (=) (list_all2 same_but_references) x y"
  shows "map_sum id (map r_id) x = map_sum id (map r_id) y"
  using assms by (cases x; cases y) (simp_all add: same_but_references_ids)

lemma process_file_ids:
  assumes "process_file lib eng con read_file self fp = Inr rs" and "r \<in> set rs"
  shows "r_id r = md5_hexdigest lib (fp @ '':'' @ r_filename r @ '':'' @ r_type r @ '':''
                    @ str_nat (r_chunk_index r))"
proof -
  from process_file_result[OF assms(1)] assms(2) obtain c cs where
    r: "r \<in> set (build_records lib self fp (extract_code_info lib c) 0 cs)"
    by auto
  from build_records_member[OF r]
  have e: "r = chunk_record lib self fp (extract_code_info lib c) (r_chunk_index r) (cs ! r_chunk_index r)"
    by blast
  have f: "r_filename r = info_filename (extract_code_info lib c)"
    by (subst e) (simp add: chunk_record_def Let_def)
  show ?thesis by (subst e, subst chunk_record_id) (simp add: f[symmetric] e[symmetric])
qed


text \<open>
  Claim C3, as stated, fails: \<open>extract_references\<close> returns \<open>list(references)\<close>
  of a set of strings, whose iteration order is fixed only within one process. Two runs over
  the same curated file \<open>d/f.md\<close>, one iterating in insertion order and one in the
  reverse order, give records whose \<open>references\<close> lists differ.
\<close>

theorem reference_order_differs_between_runs:
  "ex_lib_rev = ex_lib\<lparr>set_order := rev\<rparr>
   \<and> map_sum id (map r_references)
        (process_file ex_lib ex_engine ex_console ex_read ex_chunker ''d/f.md'')
        = Inr ([''f'', ''a'', ''b''] # [])
   \<and> map_sum id (map r_references)
        (process_file ex_lib_rev ex_engine ex_console ex_read ex_chunker ''d/f.md'')
        = Inr ([''b'', ''a'', ''f''] # [])
   \<and> process_file ex_lib ex_engine ex_console ex_read ex_chunker ''d/f.md''
        \<noteq> process_file ex_lib_rev ex_engine ex_console ex_read ex_chunker ''d/f.md''"
proof -
  have a: "map_sum id (map r_references)
        (process_file ex_lib ex_engine ex_console ex_read ex_chunker ''d/f.md'')
        = Inr ([''f'', ''a'', ''b''] # [])" by code_simp
  have b: "map_sum id (map r_references)
        (process_file ex_lib_rev ex_engine ex_console ex_read ex_chunker ''d/f.md'')
        = Inr ([''b'', ''a'', ''f''] # [])" by code_simp
  have c: "(Inr ([''f'', ''a'', ''b''] # []) :: error + string list list)
      \<noteq> Inr ([''b'', ''a'', ''f''] # [])" by simp
  from a b c have "process_file ex_lib ex_engine ex_console ex_read ex_chunker ''d/f.md''
        \<noteq> process_file ex_lib_rev ex_engine ex_console ex_read ex_chunker ''d/f.md''" by metis
  with a b show ?thesis by (simp add: ex_lib_rev_def)
qed

text \<open>
  Claim C3, amended: for every curated file, in whatever language, two runs that differ
  only in the order in which sets of strings are iterated end in the same way: both raise
  the same exception, or both give the same number of records with the same identities,
  where corresponding records are equal in every field but \<open>references\<close> (the
  \<open>imports\<close> list included) and hold there the same set of identifiers. Every identity
  is the digest of the file path, the file name, the chunk type and the chunk index, joined
  by colons.
\<close>

theorem extraction_stable_up_to_reference_order:
  assumes "enumerates (set_order lib)" and "enumerates ord'"
  shows "rel_sum (=) (list_all2 same_but_references)
           (process_file lib eng con read_file self fp)
           (process_file (lib\<lparr>set_order := ord'\<rparr>) eng con read_file self fp)
     \<and> map_sum id (map r_id) (process_file lib eng con read_file self fp)
         = map_sum id (map r_id)
             (process_file (lib\<lparr>set_order := ord'\<rparr>) eng con read_file self fp)
     \<and> (\<forall>rs. process_file lib eng con read_file self fp = Inr rs \<longrightarrow>
           (\<forall>r \<in> set rs.
              r_id r = md5_hexdigest lib (fp @ '':'' @ r_filename r @ '':'' @ r_type r @ '':''
                         @ str_nat (r_chunk_index r))))"
proof -
  note a = process_file_agree[OF assms, of eng con read_file self fp]
  from a same_but_references_result_ids[OF a] process_file_ids show ?thesis by blast
qed

text \<open>Witness for claim C3 (amended): the Python file of the small directory under the
  two iteration orders.\<close>

theorem extraction_stable_up_to_reference_order_witness:
  "enumerates (set_order ex_lib) \<and> enumerates rev
   \<and> rel_sum (=) (list_all2 same_but_references)
        (process_file ex_lib ex_engine ex_console ex_read ex_chunker ''d/f.md'')
        (process_file ex_lib_rev ex_engine ex_console ex_read ex_chunker ''d/f.md'')
   \<and> map_sum id (map r_id)
        (process_file ex_lib ex_engine ex_console ex_read ex_chunker ''d/f.md'')
       = map_sum id (map r_id)
        (process_file ex_lib_rev ex_engine ex_console ex_read ex_chunker ''d/f.md'')
   \<and> (\<exists>r. process_file ex_lib ex_engine ex_console ex_read ex_chunker ''d/f.md'' = Inr [r]
         \<and> r_id r = md5_hexdigest ex_lib (''d/f.md'' @ '':'' @ r_filename r @ '':'' @ r_type r
                       @ '':'' @ str_nat (r_chunk_index r))
         \<and> r_id r = ''md5(d/f.md:f.py:function:0)'')"
proof -
  have h1: "enumerates (set_order ex_lib)" by (simp add: enumerates_def ex_lib_def)
  have h2: "enumerates rev" by (simp add: enumerates_def)
  have h3: "process_file ex_lib ex_engine ex_console ex_read ex_chunker ''d/f.md''
      = Inr [chunk_record ex_lib ex_chunker ''d/f.md'' (extract_code_info ex_lib ''<f.py>'') 0
               (hd (py_chunk_code ex_lib ex_py_tree ex_py_code))]" by code_simp
  have h4: "r_id (chunk_record ex_lib ex_chunker ''d/f.md'' (extract_code_info ex_lib ''<f.py>'') 0
               (hd (py_chunk_code ex_lib ex_py_tree ex_py_code))) = ''md5(d/f.md:f.py:function:0)''"
    by code_simp
  note t = extraction_stable_up_to_reference_order[where con = ex_console
      and read_file = ex_read and fp = "''d/f.md''" and eng = ex_engine and self = ex_chunker,
      OF h1 h2, folded ex_lib_rev_def]
  from t h3 have i: "r_id (chunk_record ex_lib ex_chunker ''d/f.md''
        (extract_code_info ex_lib ''<f.py>'') 0 (hd (py_chunk_code ex_lib ex_py_tree ex_py_code)))
      = md5_hexdigest ex_lib (''d/f.md'' @ '':''
          @ r_filename (chunk_record ex_lib ex_chunker ''d/f.md''
              (extract_code_info ex_lib ''<f.py>'') 0 (hd (py_chunk_code ex_lib ex_py_tree ex_py_code)))
          @ '':''
          @ r_type (chunk_record ex_lib ex_chunker ''d/f.md''
              (extract_code_info ex_lib ''<f.py>'') 0 (hd (py_chunk_code ex_lib ex_py_tree ex_py_code)))
          @ '':''
          @ str_nat (r_chunk_index (chunk_record ex_lib ex_chunker ''d/f.md''
              (extract_code_info ex_lib ''<f.py>'') 0 (hd (py_chunk_code ex_lib ex_py_tree ex_py_code)))))"
    by simp
  from t h1 h2 h3 h4 i show ?thesis by blast
qed

section \<open>Parent resolution\<close>

lemma java_scan_absent:
  "(p, ''class'') \<notin> set caps \<Longrightarrow> java_scan_classes code p caps acc = acc"
proof (induction code p caps acc rule: java_scan_classes.induct)
  case (3 code p cap nxt caps acc)
  from 3(2) have ne: "\<not> (fst cap = p \<and> snd cap = ''class'')" by (cases cap) auto
  from 3(2) have rest: "(p, ''class'') \<notin> set (nxt # caps)" by simp
  show ?case using 3(1)[OF rest] ne by auto
qed simp_all

lemma java_scan_skip:
  "(p, ''class'') \<notin> set pre \<Longrightarrow>
   java_scan_classes code p (pre @ c # rest) acc = java_scan_classes code p (c # rest) acc"
proof (induction pre)
  case Nil
  then show ?case by simp
next
  case (Cons x pre)
  from Cons.prems have ne: "\<not> (fst x = p \<and> snd x = ''class'')" by (cases x) auto
  from Cons.prems have rest: "(p, ''class'') \<notin> set pre" by simp
  obtain y ys where ys: "pre @ c # rest = y # ys" by (cases pre) auto
  have "java_scan_classes code p ((x # pre) @ c # rest) acc = java_scan_classes code p (y # ys) acc"
    using ne by (auto simp: ys)
  then show ?case using Cons.IH[OF rest] by (simp add: ys)
qed

lemma java_scan_found:
  assumes "caps = pre @ (p, ''class'') # (nn, ''class_name'') # post"
    and "(p, ''class'') \<notin> set pre" and "(p, ''class'') \<notin> set post"
  shows "java_scan_classes code p caps None = Some (get_node_text nn code)"
proof -
  have "(p, ''class'') \<notin> set ((nn, ''class_name'') # post)" using assms(3) by simp
  from java_scan_absent[OF this]
  have "java_scan_classes code p ((p, ''class'') # (nn, ''class_name'') # post) None
      = Some (get_node_text nn code)" by simp
  then show ?thesis unfolding assms(1) java_scan_skip[OF assms(2)] .
qed

lemma java_walk_member:
  "ch \<in> set (java_walk lib t code imps caps) \<Longrightarrow>
   \<exists>n nn ty. (n, ty) \<in> set caps \<and> (ty = ''class'' \<or> ty = ''method'' \<or> ty = ''constructor'')
     \<and> ch = java_chunk lib t code imps ty n nn"
proof (induction caps rule: induct_list012)
  case 1
  then show ?case by simp
next
  case (2 x)
  then show ?case by simp
next
  case (3 cap nxt caps)
  obtain n ty where cap: "cap = (n, ty)" by (cases cap)
  from "3.prems" consider
      (here) "ty = ''class'' \<or> ty = ''method'' \<or> ty = ''constructor''"
        "ch = java_chunk lib t code imps ty n (fst nxt)"
    | (later) "ch \<in> set (java_walk lib t code imps caps)"
    | (tail) "ch \<in> set (java_walk lib t code imps (nxt # caps))"
    by (auto simp: cap split: if_splits)
  then show ?case
  proof cases
    case here
    then show ?thesis using cap by auto
  next
    case later
    from "3.IH"(1)[OF this] show ?thesis by auto
  next
    case tail
    from "3.IH"(2)[OF this] show ?thesis by auto
  qed
qed

lemma java_chunk_fields:
  "chunk_type (snd (java_chunk lib t code imps ty n nn)) = ty"
  "content (snd (java_chunk lib t code imps ty n nn)) = get_node_text n code"
  "parent (snd (java_chunk lib t code imps ty n nn)) =
     (if ty = ''class'' then None else java_parent_class code (java_captures t) n)"
  by (simp_all add: java_chunk_def make_chunk_def)

lemma py_scan_absent:
  "p \<notin> fst ` set caps \<Longrightarrow> py_scan_classes code cc p caps acc = acc"
  by (induction caps arbitrary: acc) auto

lemma py_scan_append:
  "py_scan_classes code cc p (xs @ ys) acc
     = py_scan_classes code cc p ys (py_scan_classes code cc p xs acc)"
  by (induction xs arbitrary: acc) simp_all

lemma index_of_first: "x \<notin> set pre \<Longrightarrow> index_of x (pre @ x # rest) = length pre"
  by (induction pre) (auto simp: index_of_def)

lemma py_scan_found:
  assumes cc: "cc = pre @ (p, l) # (nn, l') # post"
    and "p \<notin> fst ` set pre" and "p \<notin> fst ` set post" and "nn \<noteq> p"
  shows "py_scan_classes code cc p cc None = Some (get_node_text nn code)"
proof -
  have np: "(p, l) \<notin> set pre" using assms(2) by force
  have idx: "index_of (p, l) cc = length pre" unfolding cc using np by (rule index_of_first)
  have nth: "cc ! Suc (length pre) = (nn, l')" unfolding cc by (simp add: nth_append)
  have len: "Suc (length pre) < length cc" unfolding cc by simp
  have one: "py_scan_classes code cc p [(p, l)] None = Some (get_node_text nn code)"
    using idx nth len by (simp add: Let_def)
  have rest: "p \<notin> fst ` set ((nn, l') # post)" using assms(3,4) by auto
  have "py_scan_classes code cc p (pre @ [(p, l)] @ (nn, l') # post) None
      = Some (get_node_text nn code)"
    unfolding py_scan_append py_scan_absent[OF assms(2)] one py_scan_absent[OF rest] ..
  then show ?thesis using cc by simp
qed

lemma py_methods_member:
  "ch \<in> set (py_methods lib t code imps caps) \<Longrightarrow>
   \<exists>m mn refs. m \<in> fst ` set caps
     \<and> ch = make_chunk ''python'' ''method'' (get_node_text mn code)
              (py_parent_class code (py_class_captures t) m) imps refs m mn code"
proof (induction caps rule: induct_list012)
  case (3 c cn caps)
  from "3.prems" consider
      (here) "ch = make_chunk ''python'' ''method'' (get_node_text (fst cn) code)
              (py_parent_class code (py_class_captures t) (fst c)) imps
              (extract_references lib python_keywords (py_identifier_captures t (fst c)) code)
              (fst c) (fst cn) code"
    | (later) "ch \<in> set (py_methods lib t code imps caps)"
    by auto
  then show ?case
  proof cases
    case here
    then show ?thesis by auto
  next
    case later
    from "3.IH"(1)[OF this] show ?thesis by auto
  qed
qed simp_all

lemma py_classes_type:
  "ch \<in> set (py_classes lib t code imps caps) \<Longrightarrow> chunk_type (snd ch) = ''class''"
  by (induction caps rule: induct_list012) (auto simp: make_chunk_def)

lemma py_functions_parent:
  "ch \<in> set (py_functions lib t code imps caps) \<Longrightarrow>
   chunk_type (snd ch) = ''function'' \<and> parent (snd ch) = None"
  by (induction caps rule: induct_list012) (auto simp: make_chunk_def split: if_splits)

lemma py_methods_type:
  "ch \<in> set (py_methods lib t code imps caps) \<Longrightarrow> chunk_type (snd ch) = ''method''"
  by (induction caps rule: induct_list012) (auto simp: make_chunk_def)

lemma java_member_parent:
  assumes "ch \<in> set (java_chunk_code lib jt code)"
    and "chunk_type (snd ch) = ''method'' \<or> chunk_type (snd ch) = ''constructor''"
  shows "\<exists>n. (n, chunk_type (snd ch)) \<in> set (java_captures jt)
     \<and> content (snd ch) = get_node_text n code
     \<and> (enclosing ''class_declaration'' (node_parent n) = None \<longrightarrow> parent (snd ch) = None)
     \<and> (\<forall>p nn pre post.
          enclosing ''class_declaration'' (node_parent n) = Some p
          \<and> java_captures jt = pre @ (p, ''class'') # (nn, ''class_name'') # post
          \<and> (p, ''class'') \<notin> set pre \<and> (p, ''class'') \<notin> set post
          \<longrightarrow> parent (snd ch) = Some (get_node_text nn code))"
proof -
  from assms(1) obtain n nn ty where m: "(n, ty) \<in> set (java_captures jt)"
    and ch: "ch = java_chunk lib jt code (java_extract_imports lib jt code) ty n nn"
    unfolding java_chunk_code_def using java_walk_member by blast
  have ty: "chunk_type (snd ch) = ty" by (simp add: ch java_chunk_fields)
  with assms(2) have nc: "ty \<noteq> ''class''" by auto
  have par: "parent (snd ch) = java_parent_class code (java_captures jt) n"
    using nc by (simp add: ch java_chunk_fields)
  have a: "enclosing ''class_declaration'' (node_parent n) = None \<longrightarrow> parent (snd ch) = None"
    by (simp add: par java_parent_class_def)
  have b: "\<forall>p nn pre post.
          enclosing ''class_declaration'' (node_parent n) = Some p
          \<and> java_captures jt = pre @ (p, ''class'') # (nn, ''class_name'') # post
          \<and> (p, ''class'') \<notin> set pre \<and> (p, ''class'') \<notin> set post
          \<longrightarrow> parent (snd ch) = Some (get_node_text nn code)"
  proof (intro allI impI)
    fix p nn pre post
    assume h: "enclosing ''class_declaration'' (node_parent n) = Some p
          \<and> java_captures jt = pre @ (p, ''class'') # (nn, ''class_name'') # post
          \<and> (p, ''class'') \<notin> set pre \<and> (p, ''class'') \<notin> set post"
    then have "java_scan_classes code p (java_captures jt) None = Some (get_node_text nn code)"
      using java_scan_found[of "java_captures jt" pre p nn post code] by blast
    with h show "parent (snd ch) = Some (get_node_text nn code)"
      by (simp add: par java_parent_class_def)
  qed
  have c: "content (snd ch) = get_node_text n code" by (simp add: ch java_chunk_fields)
  show ?thesis
  proof (intro exI[of _ n] conjI)
    show "(n, chunk_type (snd ch)) \<in> set (java_captures jt)" using m ty by simp
    show "content (snd ch) = get_node_text n code" by (rule c)
    show "enclosing ''class_declaration'' (node_parent n) = None \<longrightarrow> parent (snd ch) = None"
      by (rule a)
    show "\<forall>p nn pre post.
          enclosing ''class_declaration'' (node_parent n) = Some p
          \<and> java_captures jt = pre @ (p, ''class'') # (nn, ''class_name'') # post
          \<and> (p, ''class'') \<notin> set pre \<and> (p, ''class'') \<notin> set post
          \<longrightarrow> parent (snd ch) = Some (get_node_text nn code)" by (rule b)
  qed
qed

lemma py_chunk_code_cases:
  assumes "ch \<in> set (py_chunk_code lib pt code)"
  obtains imps where "ch \<in> set (py_classes lib pt code imps (py_class_captures pt))"
  | imps where "ch \<in> set (py_functions lib pt code imps (py_function_captures pt))"
  | imps where "ch \<in> set (py_methods lib pt code imps (py_method_captures pt))"
  using assms by (auto simp: py_chunk_code_def Let_def)

lemma py_method_parent:
  assumes "ch \<in> set (py_chunk_code lib pt code)" and "chunk_type (snd ch) = ''method''"
  shows "\<exists>m. m \<in> fst ` set (py_method_captures pt)
     \<and> content (snd ch) = get_node_text m code
     \<and> (enclosing ''class_definition'' (node_parent m) = None \<longrightarrow> parent (snd ch) = None)
     \<and> (\<forall>p l nn l' pre post.
          enclosing ''class_definition'' (node_parent m) = Some p
          \<and> py_class_captures pt = pre @ (p, l) # (nn, l') # post
          \<and> p \<notin> fst ` set pre \<and> p \<notin> fst ` set post \<and> nn \<noteq> p
          \<longrightarrow> parent (snd ch) = Some (get_node_text nn code))"
proof -
  from assms(1) obtain imps where mem: "ch \<in> set (py_methods lib pt code imps (py_method_captures pt))"
  proof (cases rule: py_chunk_code_cases)
    case (1 imps)
    from py_classes_type[OF this] assms(2) show ?thesis by simp
  next
    case (2 imps)
    from py_functions_parent[OF this] assms(2) show ?thesis by simp
  next
    case (3 imps)
    then show ?thesis using that by blast
  qed
  from py_methods_member[OF mem] obtain m mn refs where m: "m \<in> fst ` set (py_method_captures pt)"
    and ch: "ch = make_chunk ''python'' ''method'' (get_node_text mn code)
              (py_parent_class code (py_class_captures pt) m) imps refs m mn code"
    by blast
  have par: "parent (snd ch) = py_parent_class code (py_class_captures pt) m"
    by (simp add: ch make_chunk_def)
  have c: "content (snd ch) = get_node_text m code" by (simp add: ch make_chunk_def)
  have a: "enclosing ''class_definition'' (node_parent m) = None \<longrightarrow> parent (snd ch) = None"
    by (simp add: par py_parent_class_def)
  have b: "\<forall>p l nn l' pre post.
          enclosing ''class_definition'' (node_parent m) = Some p
          \<and> py_class_captures pt = pre @ (p, l) # (nn, l') # post
          \<and> p \<notin> fst ` set pre \<and> p \<notin> fst ` set post \<and> nn \<noteq> p
          \<longrightarrow> parent (snd ch) = Some (get_node_text nn code)"
  proof (intro allI impI)
    fix p l nn l' pre post
    assume h: "enclosing ''class_definition'' (node_parent m) = Some p
          \<and> py_class_captures pt = pre @ (p, l) # (nn, l') # post
          \<and> p \<notin> fst ` set pre \<and> p \<notin> fst ` set post \<and> nn \<noteq> p"
    then have "py_scan_classes code (py_class_captures pt) p (py_class_captures pt) None
        = Some (get_node_text nn code)"
      using py_scan_found[of "py_class_captures pt" pre p l nn l' post code] by blast
    with h show "parent (snd ch) = Some (get_node_text nn code)"
      by (simp add: par py_parent_class_def)
  qed
  show ?thesis
  proof (intro exI[of _ m] conjI)
    show "m \<in> fst ` set (py_method_captures pt)" by (rule m)
    show "content (snd ch) = get_node_text m code" by (rule c)
    show "enclosing ''class_definition'' (node_parent m) = None \<longrightarrow> parent (snd ch) = None"
      by (rule a)
    show "\<forall>p l nn l' pre post.
          enclosing ''class_definition'' (node_parent m) = Some p
          \<and> py_class_captures pt = pre @ (p, l) # (nn, l') # post
          \<and> p \<notin> fst ` set pre \<and> p \<notin> fst ` set post \<and> nn \<noteq> p
          \<longrightarrow> parent (snd ch) = Some (get_node_text nn code)" by (rule b)
  qed
qed

lemma py_function_parent:
  assumes "ch \<in> set (py_chunk_code lib pt code)" and "chunk_type (snd ch) = ''function''"
  shows "parent (snd ch) = None"
  using assms(1)
proof (cases rule: py_chunk_code_cases)
  case (1 imps)
  from py_classes_type[OF this] assms(2) show ?thesis by simp
next
  case (2 imps)
  from py_functions_parent[OF this] show ?thesis by simp
next
  case (3 imps)
  from py_methods_type[OF this] assms(2) show ?thesis by simp
qed

lemma chunk_record_parent: "r_parent (chunk_record lib self fp info i ch) = parent (snd ch)"
  by (simp add: chunk_record_def Let_def)

text \<open>The walk up the parent links stops at the nearest ancestor of the given type.\<close>

lemma enclosing_nearest:
  "enclosing ty po = List.find (\<lambda>q. node_type q = ty) (ancestors_from po)"
  by (induction po rule: ancestors_from.induct) simp_all

lemma js_walk_member:
  "ch \<in> set (js_walk lib t code imps caps) \<Longrightarrow>
   \<exists>n ty nm. (n, ty) \<in> set caps \<and> ch = js_chunk lib t code imps ty nm n"
proof (induction caps rule: induct_list012)
  case 1
  then show ?case by simp
next
  case (2 cap)
  obtain n ty where cap: "cap = (n, ty)" by (cases cap)
  from 2 show ?case by (auto simp: cap split: if_splits)
next
  case (3 cap nxt caps)
  obtain n ty where cap: "cap = (n, ty)" by (cases cap)
  from "3.prems" consider
      (here) nm where "ch = js_chunk lib t code imps ty nm n"
    | (later) "ch \<in> set (js_walk lib t code imps caps)"
    | (tail) "ch \<in> set (js_walk lib t code imps (nxt # caps))"
    by (auto simp: cap split: if_splits)
  then show ?case
  proof cases
    case here
    then show ?thesis using cap by auto
  next
    case later
    from "3.IH"(1)[OF this] show ?thesis by auto
  next
    case tail
    from "3.IH"(2)[OF this] show ?thesis by auto
  qed
qed

lemma js_method_parent:
  assumes "ch \<in> set (js_chunk_code lib t code)" and "chunk_type (snd ch) = ''method''"
  shows "\<exists>n. (n, ''method'') \<in> set (js_captures t)
     \<and> content (snd ch) = get_node_text n code
     \<and> (enclosing ''class_declaration'' (node_parent n) = None \<longrightarrow> parent (snd ch) = None)
     \<and> (\<forall>p nn pre post.
          enclosing ''class_declaration'' (node_parent n) = Some p
          \<and> js_captures t = pre @ (p, ''class'') # (nn, ''class_name'') # post
          \<and> (p, ''class'') \<notin> set pre \<and> (p, ''class'') \<notin> set post
          \<longrightarrow> parent (snd ch) = Some (get_node_text nn code))"
proof -
  from assms(1) obtain n ty nm where m: "(n, ty) \<in> set (js_captures t)"
    and ch: "ch = js_chunk lib t code (js_extract_imports lib t code) ty nm n"
    unfolding js_chunk_code_def using js_walk_member by blast
  have ty: "ty = ''method''" using assms(2) by (simp add: ch js_chunk_def make_chunk_def)
  have par: "parent (snd ch) = java_parent_class code (js_captures t) n"
    by (simp add: ch ty js_chunk_def make_chunk_def)
  have c: "content (snd ch) = get_node_text n code"
    by (simp add: ch js_chunk_def make_chunk_def)
  have a: "enclosing ''class_declaration'' (node_parent n) = None \<longrightarrow> parent (snd ch) = None"
    by (simp add: par java_parent_class_def)
  have b: "\<forall>p nn pre post.
          enclosing ''class_declaration'' (node_parent n) = Some p
          \<and> js_captures t = pre @ (p, ''class'') # (nn, ''class_name'') # post
          \<and> (p, ''class'') \<notin> set pre \<and> (p, ''class'') \<notin> set post
          \<longrightarrow> parent (snd ch) = Some (get_node_text nn code)"
  proof (intro allI impI)
    fix p nn pre post
    assume h: "enclosing ''class_declaration'' (node_parent n) = Some p
          \<and> js_captures t = pre @ (p, ''class'') # (nn, ''class_name'') # post
          \<and> (p, ''class'') \<notin> set pre \<and> (p, ''class'') \<notin> set post"
    then have "java_scan_classes code p (js_captures t) None = Some (get_node_text nn code)"
      using java_scan_found[of "js_captures t" pre p nn post code] by blast
    with h show "parent (snd ch) = Some (get_node_text nn code)"
      by (simp add: par java_parent_class_def)
  qed
  show ?thesis
  proof (intro exI[of _ n] conjI)
    show "(n, ''method'') \<in> set (js_captures t)" using m ty by simp
    show "content (snd ch) = get_node_text n code" by (rule c)
    show "enclosing ''class_declaration'' (node_parent n) = None \<longrightarrow> parent (snd ch) = None"
      by (rule a)
    show "\<forall>p nn pre post.
          enclosing ''class_declaration'' (node_parent n) = Some p
          \<and> js_captures t = pre @ (p, ''class'') # (nn, ''class_name'') # post
          \<and> (p, ''class'') \<notin> set pre \<and> (p, ''class'') \<notin> set post
          \<longrightarrow> parent (snd ch) = Some (get_node_text nn code)" by (rule b)
  qed
qed

text \<open>In the nested Java classes the method gets the name of the inner class; the
  Python and the JavaScript method get the name of their class.\<close>

lemma nested_java_parent:
  "map (name \<circ> snd) (java_chunk_code ex_lib ex_nested_tree ex_nested_code) = [''A'', ''B'', ''m'']
   \<and> map (parent \<circ> snd) (java_chunk_code ex_lib ex_nested_tree ex_nested_code)
        = [None, None, Some ''B'']"
  by code_simp

lemma python_class_parent:
  "map (name \<circ> snd) (py_chunk_code ex_lib ex_class_tree ex_class_code) = [''C'', ''m'']
   \<and> map (chunk_type \<circ> snd) (py_chunk_code ex_lib ex_class_tree ex_class_code)
        = [''class'', ''method'']
   \<and> map (parent \<circ> snd) (py_chunk_code ex_lib ex_class_tree ex_class_code) = [None, Some ''C'']"
  by code_simp

lemma js_class_parent:
  "map (name \<circ> snd) (js_chunk_code ex_lib ex_js_tree ex_js_code) = [''J'', ''m'']
   \<and> map (parent \<circ> snd) (js_chunk_code ex_lib ex_js_tree ex_js_code) = [None, Some ''J'']"
  by code_simp

text \<open>The Kotlin chunker does not scan the captures again: the parent of a method chunk is
  the text of the first child of type \<open>simple_identifier\<close> of the nearest
  \<open>class_declaration\<close>, and is unset when that node has no such child.\<close>

lemma kt_chunks_method:
  assumes "ch \<in> set (kt_chunks lib t code imps cap)" and "chunk_type (snd ch) = ''method''"
  shows "snd cap = ''function'' \<and> content (snd ch) = get_node_text (fst cap) code
     \<and> (\<exists>p. enclosing ''class_declaration'' (node_parent (fst cap)) = Some p
            \<and> parent (snd ch) = first_identifier t code p)"
  using assms
  by (auto simp: kt_chunks_def Let_def make_chunk_def split: if_splits option.splits)

lemma kt_method_parent:
  assumes "ch \<in> set (kt_chunk_code lib t code)" and "chunk_type (snd ch) = ''method''"
  shows "\<exists>n p. (n, ''function'') \<in> set (kt_captures t)
     \<and> content (snd ch) = get_node_text n code
     \<and> enclosing ''class_declaration'' (node_parent n) = Some p
     \<and> parent (snd ch) = first_identifier t code p"
proof -
  from assms(1) obtain cap where c: "cap \<in> set (kt_captures t)"
    and m: "ch \<in> set (kt_chunks lib t code (kt_extract_imports lib t code) cap)"
    by (auto simp: kt_chunk_code_def)
  from kt_chunks_method[OF m assms(2)] obtain p where
    s: "snd cap = ''function''" and t: "content (snd ch) = get_node_text (fst cap) code"
    and e: "enclosing ''class_declaration'' (node_parent (fst cap)) = Some p"
    and q: "parent (snd ch) = first_identifier t code p" by blast
  have "cap = (fst cap, ''function'')" using s by (simp add: prod_eq_iff)
  with c have "(fst cap, ''function'') \<in> set (kt_captures t)" by simp
  with t e q show ?thesis by blast
qed

lemma first_identifier_none:
  assumes "\<forall>child \<in> set (kt_children t p). node_type child \<noteq> ''simple_identifier''"
  shows "first_identifier t code p = None"
proof -
  from assms have "filter (\<lambda>child. node_type child = ''simple_identifier'') (kt_children t p) = []"
    by (simp add: filter_empty_conv)
  then show ?thesis by (simp add: first_identifier_def)
qed

text \<open>
  Claim C6 at a concrete input: the Kotlin file \<open>class K { fun g() {} }\<close>. The
  grammar that \<open>TreeSitterLanguage\<close> loads for Kotlin gives the name of a class as a
  child of type \<open>type_identifier\<close>, and the Kotlin chunker looks among the children of
  the class for one of type \<open>simple_identifier\<close>. It finds none: the chunk of the
  member function \<open>g\<close>, which is nested in the class named \<open>K\<close> and is emitted
  as a method, has no \<open>parent\<close>, and the class chunk is named \<open>Unknown\<close>. The
  records that \<open>process_file\<close> builds carry the same values.
\<close>

theorem kotlin_method_parent_unset:
  "kt_captures ex_kt_tree = [(ex_kt_class, ''class''), (ex_kt_function, ''function'')]
   \<and> get_node_text ex_kt_class ex_kt_code = ''class K { fun g() {} }''
   \<and> get_node_text ex_kt_function ex_kt_code = ''fun g() {}''
   \<and> get_node_text ex_kt_class_name ex_kt_code = ''K''
   \<and> map node_type (ancestors ex_kt_function) = [''class_body'', ''class_declaration'', ''source_file'']
   \<and> enclosing ''class_declaration'' (node_parent ex_kt_function) = Some ex_kt_class
   \<and> kt_children ex_kt_tree ex_kt_class = [ex_kt_class_keyword, ex_kt_class_name, ex_kt_body]
   \<and> map node_type (kt_children ex_kt_tree ex_kt_class) = [''class'', ''type_identifier'', ''class_body'']
   \<and> map (chunk_type \<circ> snd) (kt_chunk_code ex_lib ex_kt_tree ex_kt_code) = [''class'', ''method'']
   \<and> map (name \<circ> snd) (kt_chunk_code ex_lib ex_kt_tree ex_kt_code) = [''Unknown'', ''g'']
   \<and> map (parent \<circ> snd) (kt_chunk_code ex_lib ex_kt_tree ex_kt_code) = [None, None]
   \<and> map_sum id (map r_type)
        (process_file ex_lib ex_engine ex_console ex_read ex_chunker ''d/K.md'')
        = Inr [''class'', ''method'']
   \<and> map_sum id (map r_text)
        (process_file ex_lib ex_engine ex_console ex_read ex_chunker ''d/K.md'')
        = Inr [''class K { fun g() {} }'', ''fun g() {}'']
   \<and> map_sum id (map r_parent)
        (process_file ex_lib ex_engine ex_console ex_read ex_chunker ''d/K.md'')
        = Inr [None, None]"
  by code_simp


end
